theory Spec2Isabelle
  imports Complex_Main "HOL-Library.Word"
begin

unbundle bit_operations_syntax

section \<open>The fractal vertex generator\<close>

text \<open>
  \<^verbatim>\<open>FirstApp::Sierpinski(int depth, float width, float height, float px, float py,
  std::vector<LveModel::Vertex>& vertices)\<close> computes with C++ \<^verbatim>\<open>float\<close>. The
  generator only adds, subtracts and divides its arguments, so the arithmetic is taken as
  a parameter: a record of the three operations and of the conversion of the integer
  literals \<^verbatim>\<open>2\<close> and \<^verbatim>\<open>4\<close>. Nothing is assumed about them.
\<close>

record 'f float_ops =
  fadd :: "'f \<Rightarrow> 'f \<Rightarrow> 'f"
  fsub :: "'f \<Rightarrow> 'f \<Rightarrow> 'f"
  fdiv :: "'f \<Rightarrow> 'f \<Rightarrow> 'f"
  of_int_f :: "int \<Rightarrow> 'f"

text \<open>
  \<^verbatim>\<open>LveModel::Vertex\<close> is declared outside \<^verbatim>\<open>first_app.cpp\<close>; the generator
  initialises each vertex from its position alone (\<^verbatim>\<open>{{px, py}}\<close>).
\<close>

record 'f Vertex =
  position :: "'f \<times> 'f"

text \<open>
  The recursion follows the source: it stops at \<^verbatim>\<open>depth == 0\<close> only, so a negative
  depth never returns; \<open>None\<close> is the run that does not return. The vector passed by
  reference is the last argument and the result; \<^verbatim>\<open>push_back\<close> appends. The
  depth is an \<^verbatim>\<open>int\<close>; from a depth that is not negative the recursion only counts
  down to 0, so it cannot overflow. The limits of the stack and of memory are not part
  of the model.
\<close>

partial_function (option) Sierpinski ::
  "'f float_ops \<Rightarrow> int \<Rightarrow> 'f \<Rightarrow> 'f \<Rightarrow> 'f \<Rightarrow> 'f \<Rightarrow> 'f Vertex list \<Rightarrow> 'f Vertex list option"
where
  "Sierpinski fl depth w h px py vertices =
     (if depth = 0 then
        Some (((vertices
          @ [\<lparr>position = (px, py)\<rparr>])
          @ [\<lparr>position = (fadd fl px (fdiv fl w (of_int_f fl 2)), fsub fl py h)\<rparr>])
          @ [\<lparr>position = (fadd fl px w, py)\<rparr>])
      else
        Option.bind (Sierpinski fl (depth - 1)
                       (fdiv fl w (of_int_f fl 2)) (fdiv fl h (of_int_f fl 2))
                       px py vertices) (\<lambda>vertices.
        Option.bind (Sierpinski fl (depth - 1)
                       (fdiv fl w (of_int_f fl 2)) (fdiv fl h (of_int_f fl 2))
                       (fadd fl px (fdiv fl w (of_int_f fl 4)))
                       (fsub fl py (fdiv fl h (of_int_f fl 2)))
                       vertices) (\<lambda>vertices.
        Sierpinski fl (depth - 1)
                       (fdiv fl w (of_int_f fl 2)) (fdiv fl h (of_int_f fl 2))
                       (fadd fl px (fdiv fl w (of_int_f fl 2))) py vertices)))"

declare Sierpinski.simps [code]

text \<open>Exact rational arithmetic, one instance of the operations, used to run the generator.\<close>

definition exact_ops :: "rat float_ops" where
  "exact_ops = \<lparr>fadd = (+), fsub = (-), fdiv = (/), of_int_f = of_int\<rparr>"

section \<open>Vulkan values and the collaborators of the application\<close>

type_synonym handle = nat

text \<open>\<^verbatim>\<open>VkExtent2D\<close>: two \<^verbatim>\<open>uint32_t\<close>.\<close>

record VkExtent2D =
  width :: "32 word"
  height :: "32 word"

text \<open>
  \<^verbatim>\<open>VkResult\<close> is a C enumeration, a signed integer: the three codes the application
  compares with, and one of the error codes it does not name.
\<close>

type_synonym VkResult = int

definition VK_SUCCESS :: VkResult where
  "VK_SUCCESS = 0"

definition VK_SUBOPTIMAL_KHR :: VkResult where
  "VK_SUBOPTIMAL_KHR = 1000001003"

definition VK_ERROR_OUT_OF_DATE_KHR :: VkResult where
  "VK_ERROR_OUT_OF_DATE_KHR = - 1000001004"

definition VK_ERROR_DEVICE_LOST :: VkResult where
  "VK_ERROR_DEVICE_LOST = - 4"

definition VK_SHADER_STAGE_VERTEX_BIT :: "32 word" where
  "VK_SHADER_STAGE_VERTEX_BIT = 0x00000001"

definition VK_SHADER_STAGE_FRAGMENT_BIT :: "32 word" where
  "VK_SHADER_STAGE_FRAGMENT_BIT = 0x00000010"

definition VK_NULL_HANDLE :: handle where
  "VK_NULL_HANDLE = 0"

record VkPushConstantRange =
  stageFlags :: "32 word"
  offset :: "32 word"
  size' :: "32 word"

record VkPipelineLayoutCreateInfo =
  setLayoutCount :: "32 word"
  pushConstantRanges :: "VkPushConstantRange list"

text \<open>A pipeline layout is identified with the description it was created from.\<close>

type_synonym VkPipelineLayout = VkPipelineLayoutCreateInfo

text \<open>
  \<^verbatim>\<open>struct SimplePushConstantData { glm::vec2 offset; alignas(16) glm::vec3 color; }\<close>:
  a member is placed at the next multiple of its alignment, and the size of the structure
  is rounded up to its largest alignment. Members are given as (size, alignment) in
  bytes: two floats aligned as a float, three floats aligned to 16.
\<close>

definition align_up :: "nat \<Rightarrow> nat \<Rightarrow> nat" where
  "align_up n a = ((n + a - 1) div a) * a"

definition sizeof_struct :: "(nat \<times> nat) list \<Rightarrow> nat" where
  "sizeof_struct members =
     align_up (foldl (\<lambda>end_offset (sz, al). align_up end_offset al + sz) 0 members)
              (foldl max 1 (map snd members))"

definition sizeof_SimplePushConstantData :: nat where
  "sizeof_SimplePushConstantData = sizeof_struct [(8, 4), (12, 16)]"

text \<open>
  Modelled from the spec: class \<^verbatim>\<open>LveSwapChain\<close> (the presentation chain) is declared
  and implemented outside \<^verbatim>\<open>first_app.cpp\<close>. The spec describes a chain as a set of
  presentable images sized to the surface extent it is constructed from, their number
  chosen by the platform, with a render-target description. The record keeps what
  \<^verbatim>\<open>getSwapChainExtent()\<close>, \<^verbatim>\<open>imageCount()\<close> and \<^verbatim>\<open>getRenderPass()\<close> return.
\<close>

record LveSwapChain =
  swapChainExtent :: VkExtent2D
  imageCount :: nat
  renderPass :: handle

text \<open>\<^verbatim>\<open>LvePipeline\<close>: the arguments \<^verbatim>\<open>createPipeline\<close> constructs it from.\<close>

record LvePipeline =
  vertFilepath :: string
  fragFilepath :: string
  config_renderPass :: handle
  config_pipelineLayout :: VkPipelineLayout

text \<open>\<^verbatim>\<open>LveModel\<close>: the number of vertices it was constructed from.\<close>

record LveModel =
  vertexCount :: nat

section \<open>Single-precision arithmetic\<close>

text \<open>
  A \<^verbatim>\<open>float\<close> is an IEEE-754 binary32 value. A finite one is represented by the
  rational number it denotes; infinities and NaN are not represented. \<open>binary32\<close>
  rounds a rational to the nearest binary32 value, ties to the even significand: the
  magnitude is scaled by powers of two until it lies in \<open>[2\<^sup>2\<^sup>3, 2\<^sup>2\<^sup>4)\<close>, or until the
  exponent reaches that of the subnormal numbers (\<open>-149\<close>) or of the largest finite ones
  (\<open>104\<close>), and is then rounded to an integer. The result is meaningful for magnitudes
  below \<open>2\<^sup>1\<^sup>2\<^sup>8\<close>, where binary32 does not overflow.
\<close>

type_synonym float32 = rat

definition ties_to_even :: "rat \<Rightarrow> int" where
  "ties_to_even x =
     (let n = \<lfloor>x\<rfloor>
      in if x - of_int n < 1 / 2 then n
         else if 1 / 2 < x - of_int n then n + 1
         else if even n then n else n + 1)"

function normalise :: "rat \<Rightarrow> int \<Rightarrow> rat \<times> int" where
  "normalise m e =
     (if 2 ^ 24 \<le> m \<and> e < 104 then normalise (m / 2) (e + 1)
      else if m < 2 ^ 23 \<and> - 149 < e then normalise (m * 2) (e - 1)
      else (m, e))"
  by pat_completeness auto
termination
  by (relation "measure (\<lambda>(m, e). if 2 ^ 24 \<le> m then nat (104 - e) + 1
                                  else if m < 2 ^ 23 then nat (e + 149) + 1 else 0)")
     auto

declare normalise.simps [simp del]

definition pow2 :: "int \<Rightarrow> rat" where
  "pow2 e = (if 0 \<le> e then 2 ^ nat e else 1 / 2 ^ nat (- e))"

definition binary32 :: "rat \<Rightarrow> float32" where
  "binary32 x =
     (if x = 0 then 0
      else case normalise \<bar>x\<bar> 0 of
             (m, e) \<Rightarrow> sgn x * of_int (ties_to_even m) * pow2 e)"

text \<open>
  The operations of C++ on \<^verbatim>\<open>float\<close> that \<^verbatim>\<open>recordCommandBuffer\<close> uses: each
  rounds its exact result. A literal such as \<^verbatim>\<open>0.4f\<close> is the decimal rounded; an
  \<^verbatim>\<open>int\<close> operand is converted to \<^verbatim>\<open>float\<close> first; negation is exact.
\<close>

definition float_add :: "float32 \<Rightarrow> float32 \<Rightarrow> float32" where
  "float_add x y = binary32 (x + y)"

definition float_mul :: "float32 \<Rightarrow> float32 \<Rightarrow> float32" where
  "float_mul x y = binary32 (x * y)"

definition float_of_int :: "int \<Rightarrow> float32" where
  "float_of_int i = binary32 (of_int i)"

text \<open>
  \<^verbatim>\<open>struct SimplePushConstantData { glm::vec2 offset; alignas(16) glm::vec3 color; }\<close>,
  and the value the body of the loop \<^verbatim>\<open>for (int j = 0; j < 4; j++)\<close> gives to its
  variable \<^verbatim>\<open>push\<close>:
  \<^verbatim>\<open>push.offset = { 0.f, -0.4f + j * 0.25f }; push.color = { 0.0f, 0.0f, 0.2f + 0.2f * j };\<close>
\<close>

record SimplePushConstantData =
  offset' :: "float32 \<times> float32"
  color :: "float32 \<times> float32 \<times> float32"

definition push :: "int \<Rightarrow> SimplePushConstantData" where
  "push j =
     \<lparr>offset' = (binary32 0,
                 float_add (- binary32 (4 / 10)) (float_mul (float_of_int j) (binary32 (25 / 100)))),
      color = (binary32 0, binary32 0,
               float_add (binary32 (2 / 10)) (float_mul (binary32 (2 / 10)) (float_of_int j)))\<rparr>"

section \<open>Calls to the collaborators, in the order the application makes them\<close>

text \<open>
  Every method returns the calls it made to the window, the device and the objects it
  owns, in order, and then either the new state of the application or the reason it did
  not return. A push of constants records the payload it is given. The viewport is the
  chain extent converted to \<^verbatim>\<open>float\<close>; the call records the extent.
\<close>

datatype event =
    LveModel_new nat
  | vkCreatePipelineLayout VkPipelineLayoutCreateInfo
  | getExtent VkExtent2D
  | glfwWaitEvents
  | glfwPollEvents
  | vkDeviceWaitIdle
  | LveSwapChain_new VkExtent2D "LveSwapChain option"
  | LvePipeline_new string string handle VkPipelineLayout
  | vkAllocateCommandBuffers "32 word"
  | vkFreeCommandBuffers "32 word" "handle list"
  | acquireNextImage
  | vkBeginCommandBuffer handle
  | vkCmdBeginRenderPass handle handle int VkExtent2D
  | vkCmdSetViewport handle VkExtent2D
  | vkCmdSetScissor handle VkExtent2D
  | LvePipeline_bind handle
  | LveModel_bind handle
  | vkCmdPushConstants handle "VkPipelineLayout option" "32 word" "32 word" "32 word"
      SimplePushConstantData
  | LveModel_draw handle
  | vkCmdEndRenderPass handle
  | vkEndCommandBuffer handle
  | submitCommandBuffers handle "32 word"
  | resetWindowResizedFlag

datatype stop =
    runtime_error string
  | thrown_by string
  | assert_failed string
  | undefined_behaviour
  | never_returns

type_synonym 'a result = "event list \<times> (stop + 'a)"

definition return :: "'a \<Rightarrow> 'a result" where
  "return a = ([], Inr a)"

definition throw :: "stop \<Rightarrow> 'a result" where
  "throw s = ([], Inl s)"

definition after :: "event list \<Rightarrow> 'a result \<Rightarrow> 'a result" where
  "after evs m = (evs @ fst m, snd m)"

definition seq :: "'a result \<Rightarrow> ('a \<Rightarrow> 'b result) \<Rightarrow> 'b result" where
  "seq m f = (case snd m of Inl s \<Rightarrow> (fst m, Inl s) | Inr a \<Rightarrow> after (fst m) (f a))"

section \<open>What the window, the device and the constructors answer\<close>

text \<open>
  The answers of the collaborators are inputs. \<open>alloc_in\<close>: the result of
  \<^verbatim>\<open>vkAllocateCommandBuffers\<close> and the handles it writes. \<open>recreate_in\<close>: the extents
  \<^verbatim>\<open>lveWindow.getExtent()\<close> reports, the first call and the later ones; whether the
  \<^verbatim>\<open>LveSwapChain\<close> and \<^verbatim>\<open>LvePipeline\<close> constructors throw; the image count and the
  render pass of the chain constructed. \<open>frame_in\<close>: one iteration of the loop of
  \<^verbatim>\<open>run\<close>. \<open>ctor_in\<close>: the construction of the application.
\<close>

record alloc_in =
  allocate_result :: VkResult
  allocated :: "nat \<Rightarrow> handle"

record recreate_in =
  first_extent :: VkExtent2D
  more_extents :: "VkExtent2D list"
  chain_throws :: bool
  chain_images :: nat
  chain_renderPass :: handle
  alloc :: alloc_in
  pipeline_throws :: bool

record frame_in =
  acquire_result :: VkResult
  acquire_index :: "32 word"
  begin_result :: VkResult
  end_result :: VkResult
  submit_result :: VkResult
  window_resized :: bool
  recreate :: recreate_in

record ctor_in =
  model_throws :: bool
  layout_result :: VkResult
  ctor_recreate :: recreate_in
  ctor_alloc :: alloc_in

section \<open>The application\<close>

record FirstApp =
  lveModel :: "LveModel option"
  pipelineLayout :: "VkPipelineLayout option"
  lveSwapChain :: "LveSwapChain option"
  lvePipeline :: "LvePipeline option"
  commandBuffers :: "handle list"

definition blank :: FirstApp where
  "blank = \<lparr>lveModel = None, pipelineLayout = None, lveSwapChain = None,
            lvePipeline = None, commandBuffers = []\<rparr>"

text \<open>\<^verbatim>\<open>loadModels\<close>: three vertices; the \<^verbatim>\<open>LveModel\<close> constructor may throw.\<close>

definition loadModels :: "FirstApp \<Rightarrow> bool \<Rightarrow> FirstApp result" where
  "loadModels app throws =
     after [LveModel_new 3]
       (if throws then throw (thrown_by ''LveModel'')
        else return (app\<lparr>lveModel := Some \<lparr>vertexCount = 3\<rparr>\<rparr>))"

definition createPipelineLayout :: "FirstApp \<Rightarrow> VkResult \<Rightarrow> FirstApp result" where
  "createPipelineLayout app created =
     (let pushConstantRange =
            \<lparr>stageFlags = VK_SHADER_STAGE_VERTEX_BIT OR VK_SHADER_STAGE_FRAGMENT_BIT,
             offset = 0,
             size' = of_nat sizeof_SimplePushConstantData\<rparr>;
          pipelineLayoutInfo =
            \<lparr>setLayoutCount = 0, pushConstantRanges = [pushConstantRange]\<rparr>
      in after [vkCreatePipelineLayout pipelineLayoutInfo]
           (if created \<noteq> VK_SUCCESS
            then throw (runtime_error ''failed to create pipeline layout!'')
            else return (app\<lparr>pipelineLayout := Some pipelineLayoutInfo\<rparr>)))"

text \<open>
  The loop of \<^verbatim>\<open>recreateSwapChain\<close>: while the extent in hand has a zero side, ask the
  window again and wait for events. The second argument is what the window will report;
  when it has nothing more to report the loop is still waiting.
\<close>

fun wait_extent :: "VkExtent2D \<Rightarrow> VkExtent2D list \<Rightarrow> VkExtent2D result" where
  "wait_extent extent [] =
     (if width extent = 0 \<or> height extent = 0 then throw never_returns else return extent)"
| "wait_extent extent (e # later) =
     (if width extent = 0 \<or> height extent = 0
      then after [getExtent e, glfwWaitEvents] (wait_extent e later)
      else return extent)"

text \<open>
  Modelled from the spec: the constructor of \<^verbatim>\<open>LveSwapChain\<close>, which is outside
  \<^verbatim>\<open>first_app.cpp\<close>. It is given the extent and, on recreation, the previous chain;
  the chain it builds is sized to that extent.
\<close>

definition LveSwapChain_ctor ::
  "recreate_in \<Rightarrow> VkExtent2D \<Rightarrow> LveSwapChain option \<Rightarrow> LveSwapChain result" where
  "LveSwapChain_ctor inp extent previous =
     after [LveSwapChain_new extent previous]
       (if chain_throws inp then throw (thrown_by ''LveSwapChain'')
        else return \<lparr>swapChainExtent = extent, imageCount = chain_images inp,
                     renderPass = chain_renderPass inp\<rparr>)"

definition createPipeline :: "FirstApp \<Rightarrow> bool \<Rightarrow> FirstApp result" where
  "createPipeline app throws =
     (case lveSwapChain app of
        None \<Rightarrow> throw (assert_failed ''Cannot create pipeline before swap chain'')
      | Some chain \<Rightarrow>
     (case pipelineLayout app of
        None \<Rightarrow> throw (assert_failed ''Cannot create pipeline before pipeline layout'')
      | Some layout \<Rightarrow>
          after [LvePipeline_new ''../shaders/simple_shader.vert.spv''
                   ''../shaders/simple_shader.frag.spv'' (renderPass chain) layout]
            (if throws then throw (thrown_by ''LvePipeline'')
             else return (app\<lparr>lvePipeline := Some
                    \<lparr>vertFilepath = ''../shaders/simple_shader.vert.spv'',
                     fragFilepath = ''../shaders/simple_shader.frag.spv'',
                     config_renderPass = renderPass chain,
                     config_pipelineLayout = layout\<rparr>\<rparr>))))"

text \<open>\<^verbatim>\<open>std::vector::resize\<close>: truncate, or pad with null handles.\<close>

definition resize :: "nat \<Rightarrow> handle list \<Rightarrow> handle list" where
  "resize n xs = take n xs @ replicate (n - length xs) VK_NULL_HANDLE"

text \<open>
  \<^verbatim>\<open>createCommandBuffers\<close>: the vector is resized to the image count, and the device
  writes as many handles as the count cast to \<^verbatim>\<open>uint32_t\<close> says.
\<close>

definition createCommandBuffers :: "FirstApp \<Rightarrow> alloc_in \<Rightarrow> FirstApp result" where
  "createCommandBuffers app a =
     (case lveSwapChain app of
        None \<Rightarrow> throw undefined_behaviour
      | Some chain \<Rightarrow>
          (let buffers = resize (imageCount chain) (commandBuffers app);
               commandBufferCount = (of_nat (length buffers) :: 32 word)
           in after [vkAllocateCommandBuffers commandBufferCount]
                (if allocate_result a \<noteq> VK_SUCCESS
                 then throw (runtime_error ''failed to allocate command buffers!'')
                 else return (app\<lparr>commandBuffers :=
                        map (allocated a) [0..<unat commandBufferCount]
                          @ drop (unat commandBufferCount) buffers\<rparr>))))"

definition freeCommandBuffers :: "FirstApp \<Rightarrow> FirstApp result" where
  "freeCommandBuffers app =
     after [vkFreeCommandBuffers (of_nat (length (commandBuffers app))) (commandBuffers app)]
       (return (app\<lparr>commandBuffers := []\<rparr>))"

definition recreateSwapChain :: "FirstApp \<Rightarrow> recreate_in \<Rightarrow> FirstApp result" where
  "recreateSwapChain app inp =
     after [getExtent (first_extent inp)]
       (seq (wait_extent (first_extent inp) (more_extents inp)) (\<lambda>extent.
        after [vkDeviceWaitIdle]
          (seq (case lveSwapChain app of
                  None \<Rightarrow>
                    seq (LveSwapChain_ctor inp extent None) (\<lambda>chain.
                    return (app\<lparr>lveSwapChain := Some chain\<rparr>))
                | Some old \<Rightarrow>
                    seq (LveSwapChain_ctor inp extent (Some old)) (\<lambda>chain.
                    if imageCount chain \<noteq> length (commandBuffers app)
                    then seq (freeCommandBuffers (app\<lparr>lveSwapChain := Some chain\<rparr>)) (\<lambda>app.
                         createCommandBuffers app (alloc inp))
                    else return (app\<lparr>lveSwapChain := Some chain\<rparr>)))
               (\<lambda>app. createPipeline app (pipeline_throws inp)))))"

text \<open>
  \<^verbatim>\<open>commandBuffers[imageIndex]\<close>: the index is converted to \<^verbatim>\<open>size_t\<close>, so a negative
  \<^verbatim>\<open>int\<close> is out of range like an index past the end; reading there is undefined.
\<close>

definition element :: "handle list \<Rightarrow> int \<Rightarrow> handle result" where
  "element buffers i =
     (if 0 \<le> i \<and> nat i < length buffers then return (buffers ! nat i)
      else throw undefined_behaviour)"

text \<open>The loop \<^verbatim>\<open>for (int j = 0; j < 4; j++)\<close> of \<^verbatim>\<open>recordCommandBuffer\<close>.\<close>

function push_and_draw :: "FirstApp \<Rightarrow> handle \<Rightarrow> int \<Rightarrow> unit result" where
  "push_and_draw app buffer j =
     (if j < 4 then
        after [vkCmdPushConstants buffer (pipelineLayout app)
                 (VK_SHADER_STAGE_VERTEX_BIT OR VK_SHADER_STAGE_FRAGMENT_BIT)
                 0
                 (of_nat sizeof_SimplePushConstantData)
                 (push j),
               LveModel_draw buffer]
          (push_and_draw app buffer (j + 1))
      else return ())"
  by pat_completeness auto
termination
  by (relation "measure (\<lambda>(app, buffer, j). nat (4 - j))") auto

definition recordCommandBuffer :: "FirstApp \<Rightarrow> int \<Rightarrow> frame_in \<Rightarrow> unit result" where
  "recordCommandBuffer app imageIndex f =
     seq (element (commandBuffers app) imageIndex) (\<lambda>buffer.
     after [vkBeginCommandBuffer buffer]
       (if begin_result f \<noteq> VK_SUCCESS
        then throw (runtime_error ''failed to begin recording command buffer!'')
        else
          (case lveSwapChain app of
             None \<Rightarrow> throw undefined_behaviour
           | Some chain \<Rightarrow>
          after [vkCmdBeginRenderPass buffer (renderPass chain) imageIndex (swapChainExtent chain),
                 vkCmdSetViewport buffer (swapChainExtent chain),
                 vkCmdSetScissor buffer (swapChainExtent chain)]
          (case lvePipeline app of
             None \<Rightarrow> throw undefined_behaviour
           | Some pipeline \<Rightarrow>
          after [LvePipeline_bind buffer]
          (case lveModel app of
             None \<Rightarrow> throw undefined_behaviour
           | Some model \<Rightarrow>
          after [LveModel_bind buffer]
          (seq (push_and_draw app buffer 0) (\<lambda>_.
           after [vkCmdEndRenderPass buffer, vkEndCommandBuffer buffer]
             (if end_result f \<noteq> VK_SUCCESS
              then throw (runtime_error ''failed to record command buffer!'')
              else return ()))))))))"

definition drawFrame :: "FirstApp \<Rightarrow> frame_in \<Rightarrow> FirstApp result" where
  "drawFrame app f =
     (case lveSwapChain app of
        None \<Rightarrow> throw undefined_behaviour
      | Some chain \<Rightarrow>
     after [acquireNextImage]
       (if acquire_result f = VK_ERROR_OUT_OF_DATE_KHR
        then recreateSwapChain app (recreate f)
        else if acquire_result f \<noteq> VK_SUCCESS \<and> acquire_result f \<noteq> VK_SUBOPTIMAL_KHR
        then throw (runtime_error ''failed to acquire swap chain image!'')
        else
          seq (recordCommandBuffer app (sint (acquire_index f)) f) (\<lambda>_.
          seq (element (commandBuffers app) (uint (acquire_index f))) (\<lambda>buffer.
          after [submitCommandBuffers buffer (acquire_index f)]
            (if submit_result f = VK_ERROR_OUT_OF_DATE_KHR
                \<or> submit_result f = VK_SUBOPTIMAL_KHR \<or> window_resized f
             then after [resetWindowResizedFlag] (recreateSwapChain app (recreate f))
             else if submit_result f \<noteq> VK_SUCCESS
             then throw (runtime_error ''failed to present swap chain image!'')
             else return app)))))"

text \<open>
  The loop of \<^verbatim>\<open>run\<close>: one element of the list for each iteration, that is for each
  time \<^verbatim>\<open>lveWindow.shouldClose()\<close> answered no. An exception leaves the loop and
  \<^verbatim>\<open>run\<close>.
\<close>

fun frames :: "FirstApp \<Rightarrow> frame_in list \<Rightarrow> FirstApp result" where
  "frames app [] = return app"
| "frames app (f # fs) =
     after [glfwPollEvents] (seq (drawFrame app f) (\<lambda>app. frames app fs))"

definition run :: "FirstApp \<Rightarrow> frame_in list \<Rightarrow> FirstApp result" where
  "run app fs = seq (frames app fs) (\<lambda>app. after [vkDeviceWaitIdle] (return app))"

text \<open>The constructor \<^verbatim>\<open>FirstApp::FirstApp()\<close>.\<close>

definition FirstApp_ctor :: "ctor_in \<Rightarrow> FirstApp result" where
  "FirstApp_ctor c =
     seq (loadModels blank (model_throws c)) (\<lambda>app.
     seq (createPipelineLayout app (layout_result c)) (\<lambda>app.
     seq (recreateSwapChain app (ctor_recreate c)) (\<lambda>app.
     createCommandBuffers app (ctor_alloc c))))"

text \<open>The program: construct the application, then \<^verbatim>\<open>run\<close> it.\<close>

definition session :: "ctor_in \<Rightarrow> frame_in list \<Rightarrow> FirstApp result" where
  "session c fs = seq (FirstApp_ctor c) (\<lambda>app. run app fs)"


section \<open>Notions used in the statements\<close>

text \<open>What a successful chain construction, pipeline construction and allocation yield.\<close>

definition built_chain :: "recreate_in \<Rightarrow> VkExtent2D \<Rightarrow> LveSwapChain" where
  "built_chain inp ext =
     \<lparr>swapChainExtent = ext, imageCount = chain_images inp, renderPass = chain_renderPass inp\<rparr>"

definition built_pipeline :: "handle \<Rightarrow> VkPipelineLayout \<Rightarrow> LvePipeline" where
  "built_pipeline pass layout =
     \<lparr>vertFilepath = ''../shaders/simple_shader.vert.spv'',
      fragFilepath = ''../shaders/simple_shader.frag.spv'',
      config_renderPass = pass, config_pipelineLayout = layout\<rparr>"

definition pipeline_built :: "handle \<Rightarrow> VkPipelineLayout \<Rightarrow> event" where
  "pipeline_built pass layout =
     LvePipeline_new ''../shaders/simple_shader.vert.spv''
       ''../shaders/simple_shader.frag.spv'' pass layout"

definition fresh_buffers :: "alloc_in \<Rightarrow> nat \<Rightarrow> handle list" where
  "fresh_buffers a n =
     map (allocated a) [0..<unat (of_nat n :: 32 word)]
       @ drop (unat (of_nat n :: 32 word)) (replicate n VK_NULL_HANDLE)"

text \<open>The calls of the wait loop for the extents it went through.\<close>

definition polls :: "VkExtent2D list \<Rightarrow> event list" where
  "polls xs = concat (map (\<lambda>x. [getExtent x, glfwWaitEvents]) xs)"

text \<open>Freeing the command buffers of \<open>app\<close> and allocating \<open>n\<close> new ones.\<close>

definition reallocation :: "FirstApp \<Rightarrow> nat \<Rightarrow> event list" where
  "reallocation app n =
     [vkFreeCommandBuffers (of_nat (length (commandBuffers app))) (commandBuffers app),
      vkAllocateCommandBuffers (of_nat n)]"

text \<open>The push-constant range and the layout the constructor is expected to declare.\<close>

definition declared_range :: VkPushConstantRange where
  "declared_range =
     \<lparr>stageFlags = VK_SHADER_STAGE_VERTEX_BIT OR VK_SHADER_STAGE_FRAGMENT_BIT,
      offset = 0, size' = of_nat sizeof_SimplePushConstantData\<rparr>"

definition declared_layout :: VkPipelineLayoutCreateInfo where
  "declared_layout = \<lparr>setLayoutCount = 0, pushConstantRanges = [declared_range]\<rparr>"

text \<open>
  The state of the steady loop: everything constructed, and one command buffer for each
  image of the chain.
\<close>

definition ready :: "FirstApp \<Rightarrow> bool" where
  "ready app \<longleftrightarrow>
     lveModel app \<noteq> None \<and> pipelineLayout app = Some declared_layout \<and>
     lvePipeline app \<noteq> None \<and>
     (\<exists>chain. lveSwapChain app = Some chain \<and> length (commandBuffers app) = imageCount chain)"

text \<open>The acquired image index, read as the \<^verbatim>\<open>int\<close> it is passed as, is within the set.\<close>

definition valid_index :: "FirstApp \<Rightarrow> frame_in \<Rightarrow> bool" where
  "valid_index app f \<longleftrightarrow>
     0 \<le> sint (acquire_index f) \<and> nat (sint (acquire_index f)) < length (commandBuffers app)"

definition acquired_buffer :: "FirstApp \<Rightarrow> frame_in \<Rightarrow> handle" where
  "acquired_buffer app f = commandBuffers app ! nat (sint (acquire_index f))"

text \<open>
  The calls for one instance, for the render pass with its four instances, and for one
  complete recording into buffer \<open>cb\<close> for image \<open>i\<close>.
\<close>

definition instance_commands :: "FirstApp \<Rightarrow> handle \<Rightarrow> int \<Rightarrow> event list" where
  "instance_commands app cb j =
     [vkCmdPushConstants cb (pipelineLayout app)
        (VK_SHADER_STAGE_VERTEX_BIT OR VK_SHADER_STAGE_FRAGMENT_BIT) 0
        (of_nat sizeof_SimplePushConstantData) (push j),
      LveModel_draw cb]"

definition pass_commands :: "FirstApp \<Rightarrow> LveSwapChain \<Rightarrow> handle \<Rightarrow> int \<Rightarrow> event list" where
  "pass_commands app chain cb i =
     [vkCmdBeginRenderPass cb (renderPass chain) i (swapChainExtent chain),
      vkCmdSetViewport cb (swapChainExtent chain),
      vkCmdSetScissor cb (swapChainExtent chain),
      LvePipeline_bind cb, LveModel_bind cb]
     @ instance_commands app cb 0 @ instance_commands app cb 1
     @ instance_commands app cb 2 @ instance_commands app cb 3
     @ [vkCmdEndRenderPass cb, vkEndCommandBuffer cb]"

definition frame_commands :: "FirstApp \<Rightarrow> LveSwapChain \<Rightarrow> handle \<Rightarrow> int \<Rightarrow> event list" where
  "frame_commands app chain cb i = vkBeginCommandBuffer cb # pass_commands app chain cb i"

text \<open>Calls that record into a command buffer, and calls that submit one.\<close>

fun recorded :: "event \<Rightarrow> bool" where
  "recorded (vkBeginCommandBuffer _) = True"
| "recorded (vkCmdBeginRenderPass _ _ _ _) = True"
| "recorded (vkCmdSetViewport _ _) = True"
| "recorded (vkCmdSetScissor _ _) = True"
| "recorded (LvePipeline_bind _) = True"
| "recorded (LveModel_bind _) = True"
| "recorded (vkCmdPushConstants _ _ _ _ _ _) = True"
| "recorded (LveModel_draw _) = True"
| "recorded (vkCmdEndRenderPass _) = True"
| "recorded (vkEndCommandBuffer _) = True"
| "recorded _ = False"

fun submitted :: "event \<Rightarrow> bool" where
  "submitted (submitCommandBuffers _ _) = True"
| "submitted _ = False"

text \<open>Calls that free or allocate command buffers.\<close>

fun buffer_set_call :: "event \<Rightarrow> bool" where
  "buffer_set_call (vkFreeCommandBuffers _ _) = True"
| "buffer_set_call (vkAllocateCommandBuffers _) = True"
| "buffer_set_call _ = False"

text \<open>The extents the window reported, in order.\<close>

fun reports :: "event list \<Rightarrow> VkExtent2D list" where
  "reports [] = []"
| "reports (getExtent x # es) = x # reports es"
| "reports (_ # es) = reports es"

text \<open>
  What is expected of a single call of a session: a chain is constructed on an extent
  with no zero side; a pipeline layout is created from \<open>declared_layout\<close>; a push of
  constants names that layout, the stages, offset and size of \<open>declared_range\<close>, and
  carries the payload of one of the four instances.
\<close>

fun expected :: "event \<Rightarrow> bool" where
  "expected (LveSwapChain_new ext previous) = (width ext \<noteq> 0 \<and> height ext \<noteq> 0)"
| "expected (vkCreatePipelineLayout info) = (info = declared_layout)"
| "expected (vkCmdPushConstants cb layout stages off sz payload) =
     (layout = Some declared_layout \<and> stages = stageFlags declared_range \<and>
      off = offset declared_range \<and> sz = size' declared_range \<and>
      payload \<in> set (map push [0, 1, 2, 3]))"
| "expected _ = True"

text \<open>The components of a payload.\<close>

definition horizontal_offset :: "SimplePushConstantData \<Rightarrow> float32" where
  "horizontal_offset p = fst (offset' p)"

definition vertical_offset :: "SimplePushConstantData \<Rightarrow> float32" where
  "vertical_offset p = snd (offset' p)"

definition red :: "SimplePushConstantData \<Rightarrow> float32" where
  "red p = fst (color p)"

definition green :: "SimplePushConstantData \<Rightarrow> float32" where
  "green p = fst (snd (color p))"

definition blue :: "SimplePushConstantData \<Rightarrow> float32" where
  "blue p = snd (snd (color p))"

section \<open>Sample inputs\<close>

definition extent_800x600 :: VkExtent2D where
  "extent_800x600 = \<lparr>width = 800, height = 600\<rparr>"

definition extent_400x300 :: VkExtent2D where
  "extent_400x300 = \<lparr>width = 400, height = 300\<rparr>"

definition extent_0x0 :: VkExtent2D where
  "extent_0x0 = \<lparr>width = 0, height = 0\<rparr>"

definition sample_alloc :: alloc_in where
  "sample_alloc = \<lparr>allocate_result = VK_SUCCESS, allocated = (\<lambda>i. 100 + i)\<rparr>"

text \<open>A window that is minimised at first, then 800 by 600; a platform that gives two images.\<close>

definition sample_recreate :: recreate_in where
  "sample_recreate =
     \<lparr>first_extent = extent_0x0, more_extents = [extent_0x0, extent_800x600],
      chain_throws = False, chain_images = 2, chain_renderPass = 7,
      alloc = sample_alloc, pipeline_throws = False\<rparr>"

text \<open>A window resized to 400 by 300; the platform now gives three images.\<close>

definition sample_resize :: recreate_in where
  "sample_resize =
     \<lparr>first_extent = extent_400x300, more_extents = [],
      chain_throws = False, chain_images = 3, chain_renderPass = 8,
      alloc = \<lparr>allocate_result = VK_SUCCESS, allocated = (\<lambda>i. 200 + i)\<rparr>,
      pipeline_throws = False\<rparr>"

definition sample_ctor :: ctor_in where
  "sample_ctor =
     \<lparr>model_throws = False, layout_result = VK_SUCCESS,
      ctor_recreate = sample_recreate, ctor_alloc = sample_alloc\<rparr>"

text \<open>A frame in which every call succeeds and nothing changed.\<close>

definition sample_frame :: frame_in where
  "sample_frame =
     \<lparr>acquire_result = VK_SUCCESS, acquire_index = 1,
      begin_result = VK_SUCCESS, end_result = VK_SUCCESS,
      submit_result = VK_SUCCESS, window_resized = False,
      recreate = sample_resize\<rparr>"

text \<open>The application the constructor builds from \<open>sample_ctor\<close>.\<close>

definition sample_app :: FirstApp where
  "sample_app =
     \<lparr>lveModel = Some \<lparr>vertexCount = 3\<rparr>,
      pipelineLayout = Some declared_layout,
      lveSwapChain = Some \<lparr>swapChainExtent = extent_800x600, imageCount = 2, renderPass = 7\<rparr>,
      lvePipeline = Some (built_pipeline 7 declared_layout),
      commandBuffers = [100, 101]\<rparr>"

text \<open>The same application after a recreation on \<open>sample_resize\<close>.\<close>

definition resized_app :: FirstApp where
  "resized_app =
     \<lparr>lveModel = Some \<lparr>vertexCount = 3\<rparr>,
      pipelineLayout = Some declared_layout,
      lveSwapChain = Some \<lparr>swapChainExtent = extent_400x300, imageCount = 3, renderPass = 8\<rparr>,
      lvePipeline = Some (built_pipeline 8 declared_layout),
      commandBuffers = [200, 201, 202]\<rparr>"

text \<open>A window that stays minimised for as long as it is observed.\<close>

definition sample_minimised :: recreate_in where
  "sample_minimised = sample_recreate\<lparr>more_extents := [extent_0x0]\<rparr>"

text \<open>Frames in which one call does not succeed.\<close>

definition stale_frame :: frame_in where
  "stale_frame = sample_frame\<lparr>acquire_result := VK_ERROR_OUT_OF_DATE_KHR\<rparr>"

definition begin_fails :: frame_in where
  "begin_fails = sample_frame\<lparr>begin_result := VK_ERROR_DEVICE_LOST\<rparr>"

definition end_fails :: frame_in where
  "end_fails = sample_frame\<lparr>end_result := VK_ERROR_DEVICE_LOST\<rparr>"

definition submit_fails :: frame_in where
  "submit_fails = sample_frame\<lparr>submit_result := VK_ERROR_DEVICE_LOST\<rparr>"

definition submit_fails_resized :: frame_in where
  "submit_fails_resized =
     sample_frame\<lparr>submit_result := VK_ERROR_DEVICE_LOST, window_resized := True\<rparr>"

definition submit_suboptimal :: frame_in where
  "submit_suboptimal = sample_frame\<lparr>submit_result := VK_SUBOPTIMAL_KHR\<rparr>"

definition acquire_suboptimal :: frame_in where
  "acquire_suboptimal = sample_frame\<lparr>acquire_result := VK_SUBOPTIMAL_KHR\<rparr>"

definition both_suboptimal :: frame_in where
  "both_suboptimal = acquire_suboptimal\<lparr>submit_result := VK_SUBOPTIMAL_KHR\<rparr>"

section \<open>Properties of the vertex generator\<close>

lemma Sierpinski_nat:
  "\<exists>ws. length ws = 3 * 3 ^ n \<and> (\<forall>vs. Sierpinski fl (int n) w h px py vs = Some (vs @ ws))"
proof (induction n arbitrary: w h px py)
  case 0
  show ?case
    by (rule exI [of _ "[\<lparr>position = (px, py)\<rparr>,
          \<lparr>position = (fadd fl px (fdiv fl w (of_int_f fl 2)), fsub fl py h)\<rparr>,
          \<lparr>position = (fadd fl px w, py)\<rparr>]"]) (simp add: Sierpinski.simps)
next
  case (Suc n)
  let ?w = "fdiv fl w (of_int_f fl 2)" and ?h = "fdiv fl h (of_int_f fl 2)"
  obtain a where a: "length a = 3 * 3 ^ n"
      "\<And>vs. Sierpinski fl (int n) ?w ?h px py vs = Some (vs @ a)"
    using Suc.IH [of ?w ?h px py] by blast
  obtain b where b: "length b = 3 * 3 ^ n"
      "\<And>vs. Sierpinski fl (int n) ?w ?h (fadd fl px (fdiv fl w (of_int_f fl 4))) (fsub fl py ?h) vs
         = Some (vs @ b)"
    using Suc.IH [of ?w ?h "fadd fl px (fdiv fl w (of_int_f fl 4))" "fsub fl py ?h"] by blast
  obtain c where c: "length c = 3 * 3 ^ n"
      "\<And>vs. Sierpinski fl (int n) ?w ?h (fadd fl px ?w) py vs = Some (vs @ c)"
    using Suc.IH [of ?w ?h "fadd fl px ?w" py] by blast
  have step: "int (Suc n) - 1 = int n" "int (Suc n) \<noteq> 0" by simp_all
  have "\<forall>vs. Sierpinski fl (int (Suc n)) w h px py vs = Some (vs @ (a @ b @ c))"
    by (subst Sierpinski.simps)
       (simp only: step if_False a(2) b(2) c(2) bind.bind_lunit append_assoc, simp)
  moreover have "length (a @ b @ c) = 3 * 3 ^ Suc n"
    using a(1) b(1) c(1) by simp
  ultimately show ?case by blast
qed

section \<open>Auxiliary facts\<close>

subsection \<open>The combinators\<close>

lemma fst_return [simp]: "fst (return a) = []" and snd_return [simp]: "snd (return a) = Inr a"
  by (simp_all add: return_def)

lemma fst_throw [simp]: "fst (throw s) = []" and snd_throw [simp]: "snd (throw s) = Inl s"
  by (simp_all add: throw_def)

lemma fst_after [simp]: "fst (after evs m) = evs @ fst m"
  and snd_after [simp]: "snd (after evs m) = snd m"
  by (simp_all add: after_def)

lemma seq_Inl: "snd m = Inl s \<Longrightarrow> seq m f = (fst m, Inl s)"
  by (simp add: seq_def)

lemma seq_Inr: "snd m = Inr a \<Longrightarrow> seq m f = after (fst m) (f a)"
  by (simp add: seq_def)

lemma return_eq [simp]: "return a = (evs, r) \<longleftrightarrow> evs = [] \<and> r = Inr a"
  by (auto simp: return_def)

lemma throw_eq [simp]: "throw s = (evs, r) \<longleftrightarrow> evs = [] \<and> r = Inl s"
  by (auto simp: throw_def)

lemma after_eq: "after es m = (evs, r) \<longleftrightarrow> (\<exists>es'. m = (es', r) \<and> evs = es @ es')"
  by (cases m) (auto simp: after_def)

lemma seq_eq_Inr:
  "seq m f = (evs, Inr b) \<longleftrightarrow>
     (\<exists>es a es'. m = (es, Inr a) \<and> f a = (es', Inr b) \<and> evs = es @ es')"
  by (cases m) (auto simp: seq_def after_def prod_eq_iff split: sum.splits)

lemma in_events_seq:
  "e \<in> set (fst (seq m f)) \<Longrightarrow>
     e \<in> set (fst m) \<or> (\<exists>a. snd m = Inr a \<and> e \<in> set (fst (f a)))"
  by (cases "snd m") (auto simp: seq_def)

subsection \<open>The wait loop\<close>

lemma wait_extent_events:
  "e \<in> set (fst (wait_extent extent later)) \<Longrightarrow> e = glfwWaitEvents \<or> (\<exists>x. e = getExtent x)"
  by (induction later arbitrary: extent) (auto split: if_splits)

lemma wait_extent_Inr:
  "wait_extent extent later = (evs, Inr ext) \<Longrightarrow>
     width ext \<noteq> 0 \<and> height ext \<noteq> 0 \<and>
     (\<exists>k \<le> length later.
        evs = concat (map (\<lambda>x. [getExtent x, glfwWaitEvents]) (take k later)) \<and>
        ext = last (extent # take k later) \<and>
        (\<forall>x \<in> set (butlast (extent # take k later)). width x = 0 \<or> height x = 0))"
proof (induction later arbitrary: extent evs)
  case Nil
  then show ?case by (auto split: if_splits)
next
  case (Cons x later)
  show ?case
  proof (cases "width extent = 0 \<or> height extent = 0")
    case False
    with Cons.prems have "evs = []" "ext = extent" by auto
    with False show ?thesis by (intro conjI exI [of _ 0]) auto
  next
    case True
    with Cons.prems obtain evs' where w: "wait_extent x later = (evs', Inr ext)"
      and evs: "evs = [getExtent x, glfwWaitEvents] @ evs'"
      by (auto simp: after_eq)
    from Cons.IH [OF w] obtain k where k: "k \<le> length later"
      "evs' = concat (map (\<lambda>x. [getExtent x, glfwWaitEvents]) (take k later))"
      "ext = last (x # take k later)"
      "\<forall>y \<in> set (butlast (x # take k later)). width y = 0 \<or> height y = 0"
      and nz: "width ext \<noteq> 0" "height ext \<noteq> 0"
      by blast
    show ?thesis
      using k nz evs True by (intro conjI exI [of _ "Suc k"]) auto
  qed
qed

lemma wait_extent_total:
  "\<exists>x \<in> set (extent # later). width x \<noteq> 0 \<and> height x \<noteq> 0 \<Longrightarrow>
     \<exists>evs ext. wait_extent extent later = (evs, Inr ext)"
proof (induction later arbitrary: extent)
  case Nil
  then show ?case by simp
next
  case (Cons a later)
  show ?case
  proof (cases "width extent = 0 \<or> height extent = 0")
    case True
    with Cons.prems have "\<exists>x \<in> set (a # later). width x \<noteq> 0 \<and> height x \<noteq> 0"
      by auto
    from Cons.IH [OF this] True show ?thesis
      by (auto simp: after_eq)
  next
    case False
    then show ?thesis by simp
  qed
qed

lemma wait_extent_blocked:
  "\<forall>x \<in> set (extent # later). width x = 0 \<or> height x = 0 \<Longrightarrow>
     wait_extent extent later =
       (concat (map (\<lambda>x. [getExtent x, glfwWaitEvents]) later), Inl never_returns)"
  by (induction later arbitrary: extent) (auto simp: after_def)

subsection \<open>Recreation\<close>

lemma length_resize [simp]: "length (resize n xs) = n"
  by (simp add: resize_def)

lemma resize_Nil [simp]: "resize n [] = replicate n VK_NULL_HANDLE"
  by (simp add: resize_def)

lemma unat_of_nat_le: "unat (of_nat n :: 32 word) \<le> n"
  by (simp add: unat_of_nat)

lemma length_fresh_buffers [simp]: "length (fresh_buffers a n) = n"
  using unat_of_nat_le [of n] by (simp add: fresh_buffers_def)

lemma createPipeline_Inr:
  "createPipeline app t = (evs, Inr app') \<longleftrightarrow>
     (\<exists>chain layout. lveSwapChain app = Some chain \<and> pipelineLayout app = Some layout \<and> \<not> t \<and>
        evs = [pipeline_built (renderPass chain) layout] \<and>
        app' = app\<lparr>lvePipeline := Some (built_pipeline (renderPass chain) layout)\<rparr>)"
  by (auto simp: createPipeline_def after_eq pipeline_built_def built_pipeline_def
           split: option.splits)

lemma createCommandBuffers_Inr:
  "createCommandBuffers app a = (evs, Inr app') \<longleftrightarrow>
     (\<exists>chain. lveSwapChain app = Some chain \<and> allocate_result a = VK_SUCCESS \<and>
        evs = [vkAllocateCommandBuffers (of_nat (imageCount chain))] \<and>
        app' = app\<lparr>commandBuffers :=
                 map (allocated a) [0..<unat (of_nat (imageCount chain) :: 32 word)]
                   @ drop (unat (of_nat (imageCount chain) :: 32 word))
                       (resize (imageCount chain) (commandBuffers app))\<rparr>)"
  by (auto simp: createCommandBuffers_def after_eq Let_def split: option.splits)

lemma freeCommandBuffers_eq:
  "freeCommandBuffers app = (evs, r) \<longleftrightarrow>
     evs = [vkFreeCommandBuffers (of_nat (length (commandBuffers app))) (commandBuffers app)] \<and>
     r = Inr (app\<lparr>commandBuffers := []\<rparr>)"
  by (auto simp: freeCommandBuffers_def after_eq)

lemma LveSwapChain_ctor_Inr:
  "LveSwapChain_ctor inp ext prev = (evs, Inr chain) \<longleftrightarrow>
     \<not> chain_throws inp \<and> evs = [LveSwapChain_new ext prev] \<and> chain = built_chain inp ext"
  by (auto simp: LveSwapChain_ctor_def after_eq built_chain_def)

lemma recreateSwapChain_Inr:
  "recreateSwapChain app inp = (evs, Inr app') \<longleftrightarrow>
     (\<exists>wevs ext layout.
        wait_extent (first_extent inp) (more_extents inp) = (wevs, Inr ext) \<and>
        \<not> chain_throws inp \<and> \<not> pipeline_throws inp \<and> pipelineLayout app = Some layout \<and>
        (if lveSwapChain app \<noteq> None \<and> chain_images inp \<noteq> length (commandBuffers app)
         then allocate_result (alloc inp) = VK_SUCCESS \<and>
              evs = [getExtent (first_extent inp)] @ wevs
                    @ [vkDeviceWaitIdle, LveSwapChain_new ext (lveSwapChain app)]
                    @ reallocation app (chain_images inp)
                    @ [pipeline_built (chain_renderPass inp) layout] \<and>
              app' = app\<lparr>lveSwapChain := Some (built_chain inp ext),
                         commandBuffers := fresh_buffers (alloc inp) (chain_images inp),
                         lvePipeline := Some (built_pipeline (chain_renderPass inp) layout)\<rparr>
         else evs = [getExtent (first_extent inp)] @ wevs
                    @ [vkDeviceWaitIdle, LveSwapChain_new ext (lveSwapChain app)]
                    @ [pipeline_built (chain_renderPass inp) layout] \<and>
              app' = app\<lparr>lveSwapChain := Some (built_chain inp ext),
                         lvePipeline := Some (built_pipeline (chain_renderPass inp) layout)\<rparr>))"
  unfolding recreateSwapChain_def
  by (cases "lveSwapChain app")
     (auto simp: after_eq seq_eq_Inr createPipeline_Inr createCommandBuffers_Inr
        freeCommandBuffers_eq LveSwapChain_ctor_Inr built_chain_def reallocation_def
        fresh_buffers_def)

subsection \<open>Recording and drawing\<close>

declare push_and_draw.simps [simp del]

lemmas vk_results = VK_SUCCESS_def VK_SUBOPTIMAL_KHR_def VK_ERROR_OUT_OF_DATE_KHR_def
  VK_ERROR_DEVICE_LOST_def

lemma push_and_draw_0:
  "push_and_draw app cb 0 =
     (instance_commands app cb 0 @ instance_commands app cb 1
        @ instance_commands app cb 2 @ instance_commands app cb 3, Inr ())"
  by (simp add: push_and_draw.simps after_def instance_commands_def)

lemma recordCommandBuffer_ready:
  assumes "ready app" and "lveSwapChain app = Some chain"
    and "0 \<le> i" and "nat i < length (commandBuffers app)"
  shows "recordCommandBuffer app i f =
     after [vkBeginCommandBuffer (commandBuffers app ! nat i)]
       (if begin_result f \<noteq> VK_SUCCESS
        then throw (runtime_error ''failed to begin recording command buffer!'')
        else after (pass_commands app chain (commandBuffers app ! nat i) i)
               (if end_result f \<noteq> VK_SUCCESS
                then throw (runtime_error ''failed to record command buffer!'')
                else return ()))"
  using assms
  by (auto simp: recordCommandBuffer_def ready_def element_def seq_def after_def
        push_and_draw_0 pass_commands_def return_def throw_def)

lemma uint_valid_index: "0 \<le> sint (w :: 32 word) \<Longrightarrow> uint w = sint w"
proof -
  assume nonneg: "0 \<le> sint w"
  have "sint w < 2 ^ 32"
    using sint_lt [of w] by simp
  then have "take_bit 32 (sint w) = sint w"
    using nonneg by (simp add: take_bit_eq_mod)
  then show ?thesis
    by (simp add: uint_sint)
qed

lemma drawFrame_acquired:
  assumes "ready app" and "lveSwapChain app = Some chain"
    and "acquire_result f = VK_SUCCESS \<or> acquire_result f = VK_SUBOPTIMAL_KHR"
    and "valid_index app f"
  shows "drawFrame app f =
     after [acquireNextImage, vkBeginCommandBuffer (acquired_buffer app f)]
       (if begin_result f \<noteq> VK_SUCCESS
        then throw (runtime_error ''failed to begin recording command buffer!'')
        else after (pass_commands app chain (acquired_buffer app f) (sint (acquire_index f)))
          (if end_result f \<noteq> VK_SUCCESS
           then throw (runtime_error ''failed to record command buffer!'')
           else after [submitCommandBuffers (acquired_buffer app f) (acquire_index f)]
             (if submit_result f = VK_ERROR_OUT_OF_DATE_KHR
                 \<or> submit_result f = VK_SUBOPTIMAL_KHR \<or> window_resized f
              then after [resetWindowResizedFlag] (recreateSwapChain app (recreate f))
              else if submit_result f \<noteq> VK_SUCCESS
              then throw (runtime_error ''failed to present swap chain image!'')
              else return app)))"
proof -
  have i: "0 \<le> sint (acquire_index f)"
      "nat (sint (acquire_index f)) < length (commandBuffers app)"
    using assms(4) by (simp_all add: valid_index_def)
  have acq: "acquire_result f \<noteq> VK_ERROR_OUT_OF_DATE_KHR"
    using assms(3) by (auto simp: vk_results)
  have el: "element (commandBuffers app) (uint (acquire_index f))
              = return (acquired_buffer app f)"
    using i by (simp add: element_def uint_valid_index acquired_buffer_def)
  show ?thesis
    using assms(2,3) acq
    by (auto simp: drawFrame_def recordCommandBuffer_ready [OF assms(1,2) i] el
          acquired_buffer_def seq_def after_def return_def throw_def)
qed

lemma drawFrame_stale:
  assumes "lveSwapChain app = Some chain" and "acquire_result f = VK_ERROR_OUT_OF_DATE_KHR"
  shows "drawFrame app f = after [acquireNextImage] (recreateSwapChain app (recreate f))"
  using assms by (simp add: drawFrame_def)

subsection \<open>The steady state is kept\<close>

lemma recreateSwapChain_ready:
  assumes "ready app" and "recreateSwapChain app inp = (evs, Inr app')"
  shows "ready app'"
  using assms by (auto simp: recreateSwapChain_Inr ready_def built_chain_def split: if_splits)

lemma drawFrame_ready:
  assumes "ready app" and "drawFrame app f = (evs, Inr app')"
  shows "ready app'"
proof -
  from assms(1) obtain chain where chain: "lveSwapChain app = Some chain"
    by (auto simp: ready_def)
  have "(\<exists>es. recreateSwapChain app (recreate f) = (es, Inr app')) \<or> app' = app"
    using assms(2) chain
    by (auto simp: drawFrame_def after_eq seq_eq_Inr split: if_splits)
  then show ?thesis
    using assms(1) recreateSwapChain_ready by blast
qed

lemma frames_ready:
  "ready app \<Longrightarrow> frames app fs = (evs, Inr app') \<Longrightarrow> ready app'"
proof (induction fs arbitrary: app evs)
  case Nil
  then show ?case by simp
next
  case (Cons f fs)
  from Cons.prems(2) obtain es1 app1 es2 where
    "drawFrame app f = (es1, Inr app1)" "frames app1 fs = (es2, Inr app')"
    by (auto simp: after_eq seq_eq_Inr)
  then show ?case
    using Cons.IH Cons.prems(1) drawFrame_ready by blast
qed

lemma createPipelineLayout_Inr:
  "createPipelineLayout app r = (evs, Inr app') \<longleftrightarrow>
     r = VK_SUCCESS \<and> evs = [vkCreatePipelineLayout declared_layout] \<and>
     app' = app\<lparr>pipelineLayout := Some declared_layout\<rparr>"
  by (auto simp: createPipelineLayout_def Let_def after_eq declared_layout_def declared_range_def)

lemma loadModels_Inr:
  "loadModels app t = (evs, Inr app') \<longleftrightarrow>
     \<not> t \<and> evs = [LveModel_new 3] \<and> app' = app\<lparr>lveModel := Some \<lparr>vertexCount = 3\<rparr>\<rparr>"
  by (auto simp: loadModels_def after_eq)

lemma FirstApp_ctor_ready:
  assumes "FirstApp_ctor c = (evs, Inr app)"
  shows "ready app"
  using assms
  by (auto simp: FirstApp_ctor_def seq_eq_Inr loadModels_Inr createPipelineLayout_Inr
        recreateSwapChain_Inr createCommandBuffers_Inr blank_def ready_def built_chain_def
        unat_of_nat_le)

subsection \<open>The calls of a session\<close>

lemma wait_extent_snd:
  "snd (wait_extent extent later) = Inr ext \<Longrightarrow> width ext \<noteq> 0 \<and> height ext \<noteq> 0"
proof -
  assume "snd (wait_extent extent later) = Inr ext"
  then have "wait_extent extent later = (fst (wait_extent extent later), Inr ext)"
    by (simp add: prod_eq_iff)
  from wait_extent_Inr [OF this] show ?thesis by blast
qed

lemma fst_element [simp]: "fst (element buffers i) = []"
  by (simp add: element_def)

lemma createPipeline_calls:
  "e \<in> set (fst (createPipeline app t)) \<Longrightarrow> \<exists>a b r l. e = LvePipeline_new a b r l"
  by (auto simp: createPipeline_def split: option.splits if_splits)

lemma createCommandBuffers_calls:
  "e \<in> set (fst (createCommandBuffers app a)) \<Longrightarrow> \<exists>c. e = vkAllocateCommandBuffers c"
  by (auto simp: createCommandBuffers_def Let_def split: option.splits if_splits)

lemma recreateSwapChain_calls:
  assumes "e \<in> set (fst (recreateSwapChain app inp))"
  shows "(\<exists>x. e = getExtent x) \<or> e = glfwWaitEvents \<or> e = vkDeviceWaitIdle \<or>
     (\<exists>ext. e = LveSwapChain_new ext (lveSwapChain app) \<and> width ext \<noteq> 0 \<and> height ext \<noteq> 0) \<or>
     (\<exists>c bs. e = vkFreeCommandBuffers c bs) \<or> (\<exists>c. e = vkAllocateCommandBuffers c) \<or>
     (\<exists>a b r l. e = LvePipeline_new a b r l)"
  using assms unfolding recreateSwapChain_def
  by (cases "lveSwapChain app")
     (auto dest!: in_events_seq wait_extent_events wait_extent_snd createPipeline_calls
        createCommandBuffers_calls
        simp: LveSwapChain_ctor_def freeCommandBuffers_def split: if_splits)

lemma recreateSwapChain_expected:
  "e \<in> set (fst (recreateSwapChain app inp)) \<Longrightarrow> expected e"
  by (drule recreateSwapChain_calls) auto

lemma recreateSwapChain_quiet:
  "e \<in> set (fst (recreateSwapChain app inp)) \<Longrightarrow> \<not> recorded e \<and> \<not> submitted e"
  by (drule recreateSwapChain_calls) auto

lemma recordCommandBuffer_expected:
  assumes "ready app" and "e \<in> set (fst (recordCommandBuffer app i f))"
  shows "expected e"
  using assms unfolding recordCommandBuffer_def
  by (auto dest!: in_events_seq
        simp: ready_def element_def push_and_draw_0 instance_commands_def declared_range_def
        split: if_splits)

lemma drawFrame_expected:
  assumes "ready app" and "e \<in> set (fst (drawFrame app f))"
  shows "expected e"
proof -
  from assms(1) obtain chain where chain: "lveSwapChain app = Some chain"
    by (auto simp: ready_def)
  show ?thesis
    using assms(2) chain recordCommandBuffer_expected [OF assms(1)]
    by (auto simp: drawFrame_def dest!: in_events_seq recreateSwapChain_expected
          split: if_splits)
qed

lemma frames_expected:
  "ready app \<Longrightarrow> e \<in> set (fst (frames app fs)) \<Longrightarrow> expected e"
proof (induction fs arbitrary: app)
  case Nil
  then show ?case by simp
next
  case (Cons f fs)
  from Cons.prems(2) consider "e = glfwPollEvents" | "e \<in> set (fst (drawFrame app f))"
    | app' where "snd (drawFrame app f) = Inr app'" "e \<in> set (fst (frames app' fs))"
    by (auto dest!: in_events_seq)
  then show ?case
  proof cases
    case 1
    then show ?thesis by simp
  next
    case 2
    then show ?thesis using Cons.prems(1) drawFrame_expected by blast
  next
    case 3
    have "ready app'"
      using drawFrame_ready [OF Cons.prems(1), of f "fst (drawFrame app f)" app'] 3(1)
      by (simp add: prod_eq_iff)
    then show ?thesis using Cons.IH 3(2) by blast
  qed
qed

lemma FirstApp_ctor_expected:
  assumes "e \<in> set (fst (FirstApp_ctor c))"
  shows "expected e"
  using assms unfolding FirstApp_ctor_def
  by (auto dest!: in_events_seq recreateSwapChain_expected createCommandBuffers_calls
        simp: loadModels_def createPipelineLayout_def Let_def declared_layout_def
          declared_range_def split: if_splits)

lemma session_expected:
  assumes "e \<in> set (fst (session c fs))"
  shows "expected e"
proof -
  from assms consider "e \<in> set (fst (FirstApp_ctor c))"
    | app where "snd (FirstApp_ctor c) = Inr app" "e \<in> set (fst (run app fs))"
    unfolding session_def by (auto dest!: in_events_seq)
  then show ?thesis
  proof cases
    case 1
    then show ?thesis by (rule FirstApp_ctor_expected)
  next
    case 2
    have "ready app"
      using FirstApp_ctor_ready [of c "fst (FirstApp_ctor c)" app] 2(1)
      by (simp add: prod_eq_iff)
    moreover have "e \<in> set (fst (frames app fs)) \<or> e = vkDeviceWaitIdle"
      using 2(2) unfolding run_def by (auto dest!: in_events_seq)
    ultimately show ?thesis
      using frames_expected by auto
  qed
qed

lemma FirstApp_ctor_creates_layout:
  assumes "FirstApp_ctor c = (evs, Inr app)"
  shows "vkCreatePipelineLayout declared_layout \<in> set evs"
  using assms
  by (auto simp: FirstApp_ctor_def seq_eq_Inr loadModels_Inr createPipelineLayout_Inr)

lemma FirstApp_ctor_quiet:
  assumes "e \<in> set (fst (FirstApp_ctor c))"
  shows "\<not> recorded e"
  using assms unfolding FirstApp_ctor_def
  by (auto dest!: in_events_seq recreateSwapChain_quiet createCommandBuffers_calls
        simp: loadModels_def createPipelineLayout_def Let_def split: if_splits)

subsection \<open>Evaluation of the samples\<close>

lemmas sample_defs = extent_800x600_def extent_400x300_def extent_0x0_def sample_alloc_def
  sample_recreate_def sample_resize_def sample_ctor_def sample_frame_def sample_app_def
  resized_app_def sample_minimised_def stale_frame_def begin_fails_def end_fails_def
  submit_fails_def submit_fails_resized_def submit_suboptimal_def acquire_suboptimal_def
  both_suboptimal_def

lemmas model_defs = session_def FirstApp_ctor_def run_def drawFrame_def
  recordCommandBuffer_def element_def recreateSwapChain_def freeCommandBuffers_def
  createCommandBuffers_def resize_def createPipeline_def LveSwapChain_ctor_def
  createPipelineLayout_def loadModels_def blank_def seq_def after_def throw_def return_def
  push_and_draw_0 instance_commands_def Let_def

lemmas notion_defs = built_chain_def built_pipeline_def pipeline_built_def fresh_buffers_def
  polls_def reallocation_def declared_range_def declared_layout_def ready_def valid_index_def
  acquired_buffer_def pass_commands_def frame_commands_def VK_NULL_HANDLE_def

lemma upt_samples: "[0..<2] = [0, 1]" "[0..<3] = [0, 1, 2]"
  by (simp_all add: upt_rec)

lemma sizeof_SimplePushConstantData: "sizeof_SimplePushConstantData = 32"
  by (simp add: sizeof_SimplePushConstantData_def sizeof_struct_def align_up_def)

lemma sample_ctor_builds:
  "snd (FirstApp_ctor sample_ctor) = Inr sample_app"
  by (simp add: model_defs sample_defs notion_defs vk_results upt_samples)

lemma sample_app_ready: "ready sample_app"
  by (simp add: sample_defs notion_defs)

lemma sample_frame_draws:
  "snd (drawFrame sample_app sample_frame) = Inr sample_app"
  by (simp add: model_defs sample_defs notion_defs vk_results upt_samples)

lemma sample_resize_recreates:
  "snd (recreateSwapChain sample_app sample_resize) = Inr resized_app"
  by (simp add: model_defs sample_defs notion_defs vk_results upt_samples)

subsection \<open>The steps of a recreation\<close>

lemma recreateSwapChain_returns:
  assumes "\<exists>x \<in> set (first_extent inp # more_extents inp). width x \<noteq> 0 \<and> height x \<noteq> 0"
    and "\<not> chain_throws inp" and "allocate_result (alloc inp) = VK_SUCCESS"
    and "\<not> pipeline_throws inp" and "pipelineLayout app = Some layout"
  shows "\<exists>evs app'. recreateSwapChain app inp = (evs, Inr app')"
proof -
  from wait_extent_total [OF assms(1)] obtain wevs ext where
    "wait_extent (first_extent inp) (more_extents inp) = (wevs, Inr ext)"
    by blast
  then have "\<exists>app'. snd (recreateSwapChain app inp) = Inr app'"
    using assms(2-5)
    by (cases "lveSwapChain app")
       (auto simp: recreateSwapChain_def seq_def after_def LveSwapChain_ctor_def
          freeCommandBuffers_def createCommandBuffers_def createPipeline_def Let_def
          return_def throw_def)
  then show ?thesis
    by (metis prod.collapse)
qed

lemma reports_append [simp]: "reports (xs @ ys) = reports xs @ reports ys"
  by (induction xs rule: reports.induct) simp_all

lemma reports_polls [simp]: "reports (polls xs) = xs"
  by (induction xs) (simp_all add: polls_def)

lemma filter_polls [simp]:
  "filter recorded (polls xs) = []" "filter buffer_set_call (polls xs) = []"
  by (induction xs) (simp_all add: polls_def)

lemma recreateSwapChain_steps:
  assumes "recreateSwapChain app inp = (evs, Inr app')"
  shows "\<exists>k layout. k \<le> length (more_extents inp) \<and>
      (\<forall>x \<in> set (butlast (first_extent inp # take k (more_extents inp))).
          width x = 0 \<or> height x = 0) \<and>
      width (last (first_extent inp # take k (more_extents inp))) \<noteq> 0 \<and>
      height (last (first_extent inp # take k (more_extents inp))) \<noteq> 0 \<and>
      pipelineLayout app = Some layout \<and>
      evs = [getExtent (first_extent inp)] @ polls (take k (more_extents inp))
            @ [vkDeviceWaitIdle]
            @ [LveSwapChain_new (last (first_extent inp # take k (more_extents inp)))
                 (lveSwapChain app)]
            @ (if lveSwapChain app \<noteq> None \<and> chain_images inp \<noteq> length (commandBuffers app)
               then reallocation app (chain_images inp) else [])
            @ [pipeline_built (chain_renderPass inp) layout] \<and>
      app' = app\<lparr>lveSwapChain :=
                   Some (built_chain inp (last (first_extent inp # take k (more_extents inp)))),
                 commandBuffers :=
                   (if lveSwapChain app \<noteq> None \<and> chain_images inp \<noteq> length (commandBuffers app)
                    then fresh_buffers (alloc inp) (chain_images inp)
                    else commandBuffers app),
                 lvePipeline := Some (built_pipeline (chain_renderPass inp) layout)\<rparr>"
proof -
  from assms obtain wevs ext layout where
    w: "wait_extent (first_extent inp) (more_extents inp) = (wevs, Inr ext)"
    and l: "pipelineLayout app = Some layout"
    and r: "if lveSwapChain app \<noteq> None \<and> chain_images inp \<noteq> length (commandBuffers app)
         then evs = [getExtent (first_extent inp)] @ wevs
                    @ [vkDeviceWaitIdle, LveSwapChain_new ext (lveSwapChain app)]
                    @ reallocation app (chain_images inp)
                    @ [pipeline_built (chain_renderPass inp) layout] \<and>
              app' = app\<lparr>lveSwapChain := Some (built_chain inp ext),
                         commandBuffers := fresh_buffers (alloc inp) (chain_images inp),
                         lvePipeline := Some (built_pipeline (chain_renderPass inp) layout)\<rparr>
         else evs = [getExtent (first_extent inp)] @ wevs
                    @ [vkDeviceWaitIdle, LveSwapChain_new ext (lveSwapChain app)]
                    @ [pipeline_built (chain_renderPass inp) layout] \<and>
              app' = app\<lparr>lveSwapChain := Some (built_chain inp ext),
                         lvePipeline := Some (built_pipeline (chain_renderPass inp) layout)\<rparr>"
    unfolding recreateSwapChain_Inr by (auto split: if_splits)
  from wait_extent_Inr [OF w] obtain k where k: "k \<le> length (more_extents inp)"
    "wevs = polls (take k (more_extents inp))"
    "ext = last (first_extent inp # take k (more_extents inp))"
    "\<forall>x \<in> set (butlast (first_extent inp # take k (more_extents inp))).
        width x = 0 \<or> height x = 0"
    and nz: "width ext \<noteq> 0" "height ext \<noteq> 0"
    unfolding polls_def by blast
  show ?thesis
    apply (rule exI [of _ k], rule exI [of _ layout])
    using k(1,4) nz l r unfolding k(2,3)
    by (auto split: if_splits)
qed

lemma wait_extent_reported:
  "wait_extent extent later = (evs, Inr ext) \<Longrightarrow> ext \<in> set (extent # later)"
proof -
  assume "wait_extent extent later = (evs, Inr ext)"
  from wait_extent_Inr [OF this] obtain k where "ext = last (extent # take k later)"
    by blast
  moreover have "last (extent # take k later) \<in> set (extent # take k later)"
    by (rule last_in_set) simp
  moreover have "set (take k later) \<subseteq> set later"
    by (rule set_take_subset)
  ultimately show ?thesis by auto
qed

subsection \<open>A frame that is submitted\<close>

lemma drawFrame_submits:
  assumes "ready app" and "lveSwapChain app = Some chain"
    and "acquire_result f = VK_SUCCESS \<or> acquire_result f = VK_SUBOPTIMAL_KHR"
    and "valid_index app f"
    and "begin_result f = VK_SUCCESS" and "end_result f = VK_SUCCESS"
  shows "drawFrame app f =
     after (acquireNextImage
              # frame_commands app chain (acquired_buffer app f) (sint (acquire_index f))
              @ [submitCommandBuffers (acquired_buffer app f) (acquire_index f)])
       (if submit_result f = VK_ERROR_OUT_OF_DATE_KHR
           \<or> submit_result f = VK_SUBOPTIMAL_KHR \<or> window_resized f
        then after [resetWindowResizedFlag] (recreateSwapChain app (recreate f))
        else if submit_result f \<noteq> VK_SUCCESS
        then throw (runtime_error ''failed to present swap chain image!'')
        else return app)"
  unfolding drawFrame_acquired [OF assms(1-4)]
  by (simp add: assms(5,6) after_def frame_commands_def)

lemma filter_none: "(\<And>e. e \<in> set es \<Longrightarrow> \<not> P e) \<Longrightarrow> filter P es = []"
  by (simp add: filter_empty_conv)

lemma run_throws:
  "snd (drawFrame app f) = Inl s \<Longrightarrow>
     run app (f # fs) = (glfwPollEvents # fst (drawFrame app f), Inl s)"
  by (simp add: run_def seq_def after_def)

subsection \<open>The payloads of the four instances\<close>

lemma literals:
  "binary32 0 = 0" "binary32 (4 / 10) = 13421773 / 33554432" "binary32 (25 / 100) = 1 / 4"
  "binary32 (2 / 10) = 13421773 / 67108864"
  by code_simp+

lemma conversions:
  "float_of_int 0 = 0" "float_of_int 1 = 1" "float_of_int 2 = 2" "float_of_int 3 = 3"
  by code_simp+

lemma products:
  "float_mul 0 (1 / 4) = 0" "float_mul 1 (1 / 4) = 1 / 4" "float_mul 2 (1 / 4) = 1 / 2"
  "float_mul 3 (1 / 4) = 3 / 4"
  "float_mul (13421773 / 67108864) 0 = 0"
  "float_mul (13421773 / 67108864) 1 = 13421773 / 67108864"
  "float_mul (13421773 / 67108864) 2 = 13421773 / 33554432"
  "float_mul (13421773 / 67108864) 3 = 5033165 / 8388608"
  by code_simp+

lemma sums:
  "float_add (- (13421773 / 33554432)) 0 = - 13421773 / 33554432"
  "float_add (- (13421773 / 33554432)) (1 / 4) = - 5033165 / 33554432"
  "float_add (- (13421773 / 33554432)) (1 / 2) = 3355443 / 33554432"
  "float_add (- (13421773 / 33554432)) (3 / 4) = 11744051 / 33554432"
  "float_add (13421773 / 67108864) 0 = 13421773 / 67108864"
  "float_add (13421773 / 67108864) (13421773 / 67108864) = 13421773 / 33554432"
  "float_add (13421773 / 67108864) (13421773 / 33554432) = 5033165 / 8388608"
  "float_add (13421773 / 67108864) (5033165 / 8388608) = 13421773 / 16777216"
  by code_simp+

lemma push_0:
  "push 0 = \<lparr>offset' = (0, - 13421773 / 33554432), color = (0, 0, 13421773 / 67108864)\<rparr>"
  unfolding push_def literals conversions products sums by simp

lemma push_1:
  "push 1 = \<lparr>offset' = (0, - 5033165 / 33554432), color = (0, 0, 13421773 / 33554432)\<rparr>"
  unfolding push_def literals conversions products sums by simp

lemma push_2:
  "push 2 = \<lparr>offset' = (0, 3355443 / 33554432), color = (0, 0, 5033165 / 8388608)\<rparr>"
  unfolding push_def literals conversions products sums by simp

lemma push_3:
  "push 3 = \<lparr>offset' = (0, 11744051 / 33554432), color = (0, 0, 13421773 / 16777216)\<rparr>"
  unfolding push_def literals conversions products sums by simp

lemma instance_cases: "0 \<le> i \<Longrightarrow> i < 4 \<Longrightarrow> i = 0 \<or> i = 1 \<or> i = 2 \<or> i = (3::int)"
  by arith

lemmas component_defs = horizontal_offset_def vertical_offset_def red_def green_def blue_def

section \<open>The claims\<close>

text \<open>
  C1. Take any state the loop of \<open>run\<close> can be in: the application constructed, then
  any number of frames drawn, each with whatever the window and the device answered. When
  \<open>recreateSwapChain\<close> is called there and returns, the number of command buffers is
  the image count of the new chain. When the image count of the new chain differs from
  the number of buffers held before, the call freed the old set and allocated one buffer
  for each image, and the new set is the allocated one; otherwise the set is the one held
  before. The call records nothing, so the reallocation comes before any recording into
  the new chain. (The call the constructor makes, before any chain exists, is the initial
  construction: the constructor allocates the command buffers right after it, and the
  frames start from there.)
\<close>

theorem recreation_sizes_command_buffers:
  assumes "FirstApp_ctor c = (evs0, Inr app0)"
    and "frames app0 fs = (evs1, Inr app)"
    and "recreateSwapChain app inp = (evs, Inr app')"
  shows "\<exists>old chain.
      lveSwapChain app = Some old \<and> lveSwapChain app' = Some chain \<and>
      LveSwapChain_new (swapChainExtent chain) (Some old) \<in> set evs \<and>
      length (commandBuffers app') = imageCount chain \<and>
      (if imageCount chain \<noteq> length (commandBuffers app)
       then (\<exists>before later. evs = before @ reallocation app (imageCount chain) @ later) \<and>
            commandBuffers app' = fresh_buffers (alloc inp) (imageCount chain)
       else commandBuffers app' = commandBuffers app) \<and>
      filter recorded evs = []"
proof -
  have "ready app"
    using assms(1,2) FirstApp_ctor_ready frames_ready by blast
  then obtain old where old: "lveSwapChain app = Some old"
    and size: "length (commandBuffers app) = imageCount old"
    by (auto simp: ready_def)
  from recreateSwapChain_steps [OF assms(3)] obtain k layout where
    evs: "evs = [getExtent (first_extent inp)] @ polls (take k (more_extents inp))
            @ [vkDeviceWaitIdle]
            @ [LveSwapChain_new (last (first_extent inp # take k (more_extents inp)))
                 (lveSwapChain app)]
            @ (if lveSwapChain app \<noteq> None \<and> chain_images inp \<noteq> length (commandBuffers app)
               then reallocation app (chain_images inp) else [])
            @ [pipeline_built (chain_renderPass inp) layout]"
    and app': "app' = app\<lparr>lveSwapChain :=
                   Some (built_chain inp (last (first_extent inp # take k (more_extents inp)))),
                 commandBuffers :=
                   (if lveSwapChain app \<noteq> None \<and> chain_images inp \<noteq> length (commandBuffers app)
                    then fresh_buffers (alloc inp) (chain_images inp)
                    else commandBuffers app),
                 lvePipeline := Some (built_pipeline (chain_renderPass inp) layout)\<rparr>"
    by blast
  let ?chain = "built_chain inp (last (first_extent inp # take k (more_extents inp)))"
  have chain: "lveSwapChain app' = Some ?chain" and count: "imageCount ?chain = chain_images inp"
    and ext: "swapChainExtent ?chain = last (first_extent inp # take k (more_extents inp))"
    by (simp_all add: app' built_chain_def)
  have built: "LveSwapChain_new (swapChainExtent ?chain) (Some old) \<in> set evs"
    unfolding evs ext old by simp
  have len: "length (commandBuffers app') = imageCount ?chain"
    unfolding count by (simp add: app' old)
  have quiet: "filter recorded evs = []"
    unfolding evs by (simp add: reallocation_def pipeline_built_def)
  show ?thesis
  proof (cases "chain_images inp \<noteq> length (commandBuffers app)")
    case True
    have "evs = ([getExtent (first_extent inp)] @ polls (take k (more_extents inp))
            @ [vkDeviceWaitIdle]
            @ [LveSwapChain_new (last (first_extent inp # take k (more_extents inp)))
                 (lveSwapChain app)])
          @ reallocation app (chain_images inp) @ [pipeline_built (chain_renderPass inp) layout]"
      unfolding evs using True old by simp
    then have "\<exists>before later. evs = before @ reallocation app (imageCount ?chain) @ later"
      unfolding count by blast
    moreover have "commandBuffers app' = fresh_buffers (alloc inp) (imageCount ?chain)"
      unfolding count using True old by (simp add: app')
    ultimately show ?thesis
      using old chain built len quiet True count by auto
  next
    case False
    then have "commandBuffers app' = commandBuffers app"
      by (simp add: app')
    then show ?thesis
      using old chain built len quiet False count by auto
  qed
qed

theorem recreation_sizes_command_buffers_witness:
  "FirstApp_ctor sample_ctor = (fst (FirstApp_ctor sample_ctor), Inr sample_app) \<and>
   frames sample_app [sample_frame] = (fst (frames sample_app [sample_frame]), Inr sample_app) \<and>
   recreateSwapChain sample_app sample_resize
     = (fst (recreateSwapChain sample_app sample_resize), Inr resized_app) \<and>
   length (commandBuffers sample_app) = 2 \<and>
   (\<exists>old chain.
      lveSwapChain sample_app = Some old \<and> lveSwapChain resized_app = Some chain \<and>
      LveSwapChain_new (swapChainExtent chain) (Some old)
        \<in> set (fst (recreateSwapChain sample_app sample_resize)) \<and>
      length (commandBuffers resized_app) = imageCount chain \<and>
      (if imageCount chain \<noteq> length (commandBuffers sample_app)
       then (\<exists>before later. fst (recreateSwapChain sample_app sample_resize)
                = before @ reallocation sample_app (imageCount chain) @ later) \<and>
            commandBuffers resized_app = fresh_buffers (alloc sample_resize) (imageCount chain)
       else commandBuffers resized_app = commandBuffers sample_app) \<and>
      filter recorded (fst (recreateSwapChain sample_app sample_resize)) = [])"
proof -
  have c: "FirstApp_ctor sample_ctor = (fst (FirstApp_ctor sample_ctor), Inr sample_app)"
    using sample_ctor_builds by (simp add: prod_eq_iff)
  have f: "frames sample_app [sample_frame]
             = (fst (frames sample_app [sample_frame]), Inr sample_app)"
    using sample_frame_draws by (simp add: prod_eq_iff seq_def)
  have r: "recreateSwapChain sample_app sample_resize
             = (fst (recreateSwapChain sample_app sample_resize), Inr resized_app)"
    using sample_resize_recreates by (simp add: prod_eq_iff)
  have n: "length (commandBuffers sample_app) = 2"
    by (simp add: sample_app_def)
  show ?thesis
    using c f r n recreation_sizes_command_buffers [OF c f r] by blast
qed

text \<open>
  C2. In every session, that is the construction of the application followed by any
  frames, however it ends, every construction of a presentation chain is given an extent
  whose width and height are both non-zero. The extent given is one the window reported
  during that call of \<open>recreateSwapChain\<close>. While every extent the window reports has a
  zero side, \<open>recreateSwapChain\<close> asks the window again and waits for events after each
  answer, constructs nothing and does not return.
\<close>

theorem chain_extent_never_degenerate:
  "(LveSwapChain_new ext previous \<in> set (fst (session c fs))
      \<longrightarrow> width ext \<noteq> 0 \<and> height ext \<noteq> 0) \<and>
   (LveSwapChain_new ext previous \<in> set (fst (recreateSwapChain app inp))
      \<longrightarrow> ext \<in> set (first_extent inp # more_extents inp)) \<and>
   ((\<forall>x \<in> set (first_extent inp # more_extents inp). width x = 0 \<or> height x = 0)
      \<longrightarrow> recreateSwapChain app inp
            = (getExtent (first_extent inp) # polls (more_extents inp), Inl never_returns))"
proof (intro conjI impI)
  assume "LveSwapChain_new ext previous \<in> set (fst (session c fs))"
  then have "expected (LveSwapChain_new ext previous)"
    by (rule session_expected)
  then show "width ext \<noteq> 0" and "height ext \<noteq> 0"
    by simp_all
next
  assume built: "LveSwapChain_new ext previous \<in> set (fst (recreateSwapChain app inp))"
  let ?w = "wait_extent (first_extent inp) (more_extents inp)"
  have not_wait: "LveSwapChain_new ext previous \<notin> set (fst ?w)"
    using wait_extent_events by blast
  have "snd ?w = Inr ext"
    using built not_wait unfolding recreateSwapChain_def
    by (cases "lveSwapChain app")
       (auto dest!: in_events_seq createPipeline_calls createCommandBuffers_calls
          simp: LveSwapChain_ctor_def freeCommandBuffers_def split: if_splits)
  then have "?w = (fst ?w, Inr ext)"
    by (simp add: prod_eq_iff)
  then show "ext \<in> set (first_extent inp # more_extents inp)"
    by (rule wait_extent_reported)
next
  assume "\<forall>x \<in> set (first_extent inp # more_extents inp). width x = 0 \<or> height x = 0"
  from wait_extent_blocked [OF this] show "recreateSwapChain app inp
      = (getExtent (first_extent inp) # polls (more_extents inp), Inl never_returns)"
    by (simp add: recreateSwapChain_def seq_def after_def polls_def)
qed

theorem chain_extent_never_degenerate_witness:
  "LveSwapChain_new extent_800x600 None \<in> set (fst (session sample_ctor [])) \<and>
   width extent_800x600 \<noteq> 0 \<and> height extent_800x600 \<noteq> 0 \<and>
   LveSwapChain_new extent_400x300 (lveSwapChain sample_app)
     \<in> set (fst (recreateSwapChain sample_app sample_resize)) \<and>
   extent_400x300 \<in> set (first_extent sample_resize # more_extents sample_resize) \<and>
   width extent_0x0 = 0 \<and>
   first_extent sample_minimised # more_extents sample_minimised = [extent_0x0, extent_0x0] \<and>
   recreateSwapChain sample_app sample_minimised
     = ([getExtent extent_0x0, getExtent extent_0x0, glfwWaitEvents], Inl never_returns)"
proof -
  have a: "LveSwapChain_new extent_800x600 None \<in> set (fst (session sample_ctor []))"
    by (simp add: model_defs sample_defs notion_defs vk_results upt_samples)
  have b: "LveSwapChain_new extent_400x300 (lveSwapChain sample_app)
     \<in> set (fst (recreateSwapChain sample_app sample_resize))"
    by (simp add: model_defs sample_defs notion_defs vk_results upt_samples)
  have z: "width extent_0x0 = 0"
    and m: "first_extent sample_minimised # more_extents sample_minimised
              = [extent_0x0, extent_0x0]"
    by (simp_all add: sample_defs)
  have d: "\<forall>x \<in> set (first_extent sample_minimised # more_extents sample_minimised).
             width x = 0 \<or> height x = 0"
    unfolding m by (simp add: z)
  have p: "polls (more_extents sample_minimised) = [getExtent extent_0x0, glfwWaitEvents]"
    by (simp add: polls_def sample_defs)
  show ?thesis
    using a b z m d p
      chain_extent_never_degenerate [of extent_800x600 None sample_ctor "[]"
        sample_app sample_minimised]
      chain_extent_never_degenerate [of extent_400x300 "lveSwapChain sample_app" sample_ctor "[]"
        sample_app sample_resize]
    by (simp add: sample_defs)
qed

text \<open>
  C3. A recreation is a call of \<open>recreateSwapChain\<close> on an application that has a
  chain. It returns whenever the window reports, at the first call or later, an extent
  with no zero side, the two constructors do not throw and the allocation succeeds. When
  it returns, its calls were, in this order: the extent is asked for; for as long as the
  extent in hand has a zero side it is asked for again and events are waited for; the
  device is waited for; the new chain is constructed on the first extent with no zero
  side, with the old chain as an argument; the command buffers are freed and allocated
  again exactly when the image count of the new chain differs from their number; the
  pipeline is constructed for the render pass of the new chain, always. The application
  then holds the new chain and the new pipeline.
\<close>

theorem recreation_steps_in_order:
  assumes "lveSwapChain app = Some old"
  shows "((\<exists>x \<in> set (first_extent inp # more_extents inp). width x \<noteq> 0 \<and> height x \<noteq> 0) \<and>
          \<not> chain_throws inp \<and> allocate_result (alloc inp) = VK_SUCCESS \<and>
          \<not> pipeline_throws inp \<and> pipelineLayout app \<noteq> None
          \<longrightarrow> (\<exists>evs app'. recreateSwapChain app inp = (evs, Inr app'))) \<and>
         (recreateSwapChain app inp = (evs, Inr app')
          \<longrightarrow> (\<exists>k ext chain layout.
                 k \<le> length (more_extents inp) \<and>
                 (\<forall>x \<in> set (butlast (first_extent inp # take k (more_extents inp))).
                     width x = 0 \<or> height x = 0) \<and>
                 ext = last (first_extent inp # take k (more_extents inp)) \<and>
                 width ext \<noteq> 0 \<and> height ext \<noteq> 0 \<and>
                 chain = built_chain inp ext \<and>
                 pipelineLayout app = Some layout \<and>
                 evs = [getExtent (first_extent inp)]
                       @ polls (take k (more_extents inp))
                       @ [vkDeviceWaitIdle]
                       @ [LveSwapChain_new ext (Some old)]
                       @ (if imageCount chain \<noteq> length (commandBuffers app)
                          then reallocation app (imageCount chain) else [])
                       @ [pipeline_built (renderPass chain) layout] \<and>
                 lveSwapChain app' = Some chain \<and>
                 lvePipeline app' = Some (built_pipeline (renderPass chain) layout)))"
proof (intro conjI impI)
  assume "(\<exists>x \<in> set (first_extent inp # more_extents inp). width x \<noteq> 0 \<and> height x \<noteq> 0) \<and>
          \<not> chain_throws inp \<and> allocate_result (alloc inp) = VK_SUCCESS \<and>
          \<not> pipeline_throws inp \<and> pipelineLayout app \<noteq> None"
  then show "\<exists>evs app'. recreateSwapChain app inp = (evs, Inr app')"
    using recreateSwapChain_returns [of inp app] by auto
next
  assume "recreateSwapChain app inp = (evs, Inr app')"
  from recreateSwapChain_steps [OF this] obtain k layout where
    k: "k \<le> length (more_extents inp)"
      "\<forall>x \<in> set (butlast (first_extent inp # take k (more_extents inp))).
          width x = 0 \<or> height x = 0"
      "width (last (first_extent inp # take k (more_extents inp))) \<noteq> 0"
      "height (last (first_extent inp # take k (more_extents inp))) \<noteq> 0"
      "pipelineLayout app = Some layout"
    and evs: "evs = [getExtent (first_extent inp)] @ polls (take k (more_extents inp))
            @ [vkDeviceWaitIdle]
            @ [LveSwapChain_new (last (first_extent inp # take k (more_extents inp)))
                 (lveSwapChain app)]
            @ (if lveSwapChain app \<noteq> None \<and> chain_images inp \<noteq> length (commandBuffers app)
               then reallocation app (chain_images inp) else [])
            @ [pipeline_built (chain_renderPass inp) layout]"
    and app': "app' = app\<lparr>lveSwapChain :=
                   Some (built_chain inp (last (first_extent inp # take k (more_extents inp)))),
                 commandBuffers :=
                   (if lveSwapChain app \<noteq> None \<and> chain_images inp \<noteq> length (commandBuffers app)
                    then fresh_buffers (alloc inp) (chain_images inp)
                    else commandBuffers app),
                 lvePipeline := Some (built_pipeline (chain_renderPass inp) layout)\<rparr>"
    by blast
  let ?ext = "last (first_extent inp # take k (more_extents inp))"
  have "evs = [getExtent (first_extent inp)]
                       @ polls (take k (more_extents inp))
                       @ [vkDeviceWaitIdle]
                       @ [LveSwapChain_new ?ext (Some old)]
                       @ (if imageCount (built_chain inp ?ext) \<noteq> length (commandBuffers app)
                          then reallocation app (imageCount (built_chain inp ?ext)) else [])
                       @ [pipeline_built (renderPass (built_chain inp ?ext)) layout]"
    unfolding evs using assms by (simp add: built_chain_def)
  moreover have "lveSwapChain app' = Some (built_chain inp ?ext)"
    and "lvePipeline app' = Some (built_pipeline (renderPass (built_chain inp ?ext)) layout)"
    by (simp_all add: app' built_chain_def)
  ultimately show "\<exists>k ext chain layout.
                 k \<le> length (more_extents inp) \<and>
                 (\<forall>x \<in> set (butlast (first_extent inp # take k (more_extents inp))).
                     width x = 0 \<or> height x = 0) \<and>
                 ext = last (first_extent inp # take k (more_extents inp)) \<and>
                 width ext \<noteq> 0 \<and> height ext \<noteq> 0 \<and>
                 chain = built_chain inp ext \<and>
                 pipelineLayout app = Some layout \<and>
                 evs = [getExtent (first_extent inp)]
                       @ polls (take k (more_extents inp))
                       @ [vkDeviceWaitIdle]
                       @ [LveSwapChain_new ext (Some old)]
                       @ (if imageCount chain \<noteq> length (commandBuffers app)
                          then reallocation app (imageCount chain) else [])
                       @ [pipeline_built (renderPass chain) layout] \<and>
                 lveSwapChain app' = Some chain \<and>
                 lvePipeline app' = Some (built_pipeline (renderPass chain) layout)"
    using k by blast
qed

theorem recreation_steps_in_order_witness:
  "lveSwapChain sample_app
     = Some \<lparr>swapChainExtent = extent_800x600, imageCount = 2, renderPass = 7\<rparr> \<and>
   extent_800x600 \<in> set (first_extent sample_recreate # more_extents sample_recreate) \<and>
   width extent_800x600 \<noteq> 0 \<and> height extent_800x600 \<noteq> 0 \<and>
   \<not> chain_throws sample_recreate \<and> allocate_result (alloc sample_recreate) = VK_SUCCESS \<and>
   \<not> pipeline_throws sample_recreate \<and> pipelineLayout sample_app \<noteq> None \<and>
   (\<exists>evs app'. recreateSwapChain sample_app sample_recreate = (evs, Inr app')) \<and>
   recreateSwapChain sample_app sample_recreate
     = ([getExtent extent_0x0, getExtent extent_0x0, glfwWaitEvents,
         getExtent extent_800x600, glfwWaitEvents, vkDeviceWaitIdle,
         LveSwapChain_new extent_800x600 (lveSwapChain sample_app),
         pipeline_built 7 declared_layout], Inr sample_app) \<and>
   (\<exists>k ext chain layout.
      k \<le> length (more_extents sample_recreate) \<and>
      ext = last (first_extent sample_recreate # take k (more_extents sample_recreate)) \<and>
      width ext \<noteq> 0 \<and> height ext \<noteq> 0 \<and>
      chain = built_chain sample_recreate ext \<and>
      pipelineLayout sample_app = Some layout \<and>
      [getExtent extent_0x0, getExtent extent_0x0, glfwWaitEvents,
         getExtent extent_800x600, glfwWaitEvents, vkDeviceWaitIdle,
         LveSwapChain_new extent_800x600 (lveSwapChain sample_app),
         pipeline_built 7 declared_layout]
        = [getExtent (first_extent sample_recreate)]
          @ polls (take k (more_extents sample_recreate))
          @ [vkDeviceWaitIdle]
          @ [LveSwapChain_new ext (lveSwapChain sample_app)]
          @ (if imageCount chain \<noteq> length (commandBuffers sample_app)
             then reallocation sample_app (imageCount chain) else [])
          @ [pipeline_built (renderPass chain) layout] \<and>
      lveSwapChain sample_app = Some chain \<and>
      lvePipeline sample_app = Some (built_pipeline (renderPass chain) layout))"
proof -
  have old: "lveSwapChain sample_app
     = Some \<lparr>swapChainExtent = extent_800x600, imageCount = 2, renderPass = 7\<rparr>"
    by (simp add: sample_app_def)
  have hyps: "extent_800x600 \<in> set (first_extent sample_recreate # more_extents sample_recreate)"
    "width extent_800x600 \<noteq> 0" "height extent_800x600 \<noteq> 0"
    "\<not> chain_throws sample_recreate" "allocate_result (alloc sample_recreate) = VK_SUCCESS"
    "\<not> pipeline_throws sample_recreate" "pipelineLayout sample_app \<noteq> None"
    by (simp_all add: sample_defs)
  have run: "recreateSwapChain sample_app sample_recreate
     = ([getExtent extent_0x0, getExtent extent_0x0, glfwWaitEvents,
         getExtent extent_800x600, glfwWaitEvents, vkDeviceWaitIdle,
         LveSwapChain_new extent_800x600 (lveSwapChain sample_app),
         pipeline_built 7 declared_layout], Inr sample_app)"
    by (simp add: model_defs sample_defs notion_defs vk_results)
  note inst = recreation_steps_in_order [OF old, of sample_recreate
      "[getExtent extent_0x0, getExtent extent_0x0, glfwWaitEvents,
         getExtent extent_800x600, glfwWaitEvents, vkDeviceWaitIdle,
         LveSwapChain_new extent_800x600 (lveSwapChain sample_app),
         pipeline_built 7 declared_layout]" sample_app]
  have returns: "\<exists>evs app'. recreateSwapChain sample_app sample_recreate = (evs, Inr app')"
    using inst hyps by blast
  have steps: "\<exists>k ext chain layout.
      k \<le> length (more_extents sample_recreate) \<and>
      ext = last (first_extent sample_recreate # take k (more_extents sample_recreate)) \<and>
      width ext \<noteq> 0 \<and> height ext \<noteq> 0 \<and>
      chain = built_chain sample_recreate ext \<and>
      pipelineLayout sample_app = Some layout \<and>
      [getExtent extent_0x0, getExtent extent_0x0, glfwWaitEvents,
         getExtent extent_800x600, glfwWaitEvents, vkDeviceWaitIdle,
         LveSwapChain_new extent_800x600 (lveSwapChain sample_app),
         pipeline_built 7 declared_layout]
        = [getExtent (first_extent sample_recreate)]
          @ polls (take k (more_extents sample_recreate))
          @ [vkDeviceWaitIdle]
          @ [LveSwapChain_new ext (lveSwapChain sample_app)]
          @ (if imageCount chain \<noteq> length (commandBuffers sample_app)
             then reallocation sample_app (imageCount chain) else [])
          @ [pipeline_built (renderPass chain) layout] \<and>
      lveSwapChain sample_app = Some chain \<and>
      lvePipeline sample_app = Some (built_pipeline (renderPass chain) layout)"
    using inst run unfolding old [symmetric] by blast
  show ?thesis
    using old hyps returns run steps by blast
qed

text \<open>
  C4. In the steady state, a frame whose acquisition answers out-of-date consists of the
  acquisition followed by a recreation and nothing else: nothing is recorded and nothing
  is submitted. It returns whenever the recreation does. When it has returned, the
  application is in the steady state again, with a chain constructed on, and sized to,
  the last extent the window reported, no side of it zero; and a next frame that acquires
  an image and records without failure records into that chain and submits: its render
  area, viewport and scissor are that extent.
\<close>

theorem stale_acquire_skips_frame:
  assumes "ready app" and "acquire_result f = VK_ERROR_OUT_OF_DATE_KHR"
  shows "drawFrame app f = after [acquireNextImage] (recreateSwapChain app (recreate f)) \<and>
     filter recorded (fst (drawFrame app f)) = [] \<and>
     filter submitted (fst (drawFrame app f)) = [] \<and>
     ((\<exists>x \<in> set (first_extent (recreate f) # more_extents (recreate f)).
          width x \<noteq> 0 \<and> height x \<noteq> 0) \<and>
      \<not> chain_throws (recreate f) \<and> allocate_result (alloc (recreate f)) = VK_SUCCESS \<and>
      \<not> pipeline_throws (recreate f)
      \<longrightarrow> (\<exists>evs app'. drawFrame app f = (evs, Inr app'))) \<and>
     (drawFrame app f = (evs, Inr app')
      \<longrightarrow> ready app' \<and>
          (\<exists>chain. lveSwapChain app' = Some chain \<and>
             reports evs \<noteq> [] \<and> swapChainExtent chain = last (reports evs) \<and>
             LveSwapChain_new (last (reports evs)) (lveSwapChain app) \<in> set evs \<and>
             width (swapChainExtent chain) \<noteq> 0 \<and> height (swapChainExtent chain) \<noteq> 0 \<and>
             ((acquire_result f' = VK_SUCCESS \<or> acquire_result f' = VK_SUBOPTIMAL_KHR) \<and>
              valid_index app' f' \<and>
              begin_result f' = VK_SUCCESS \<and> end_result f' = VK_SUCCESS
              \<longrightarrow> (\<exists>rest. fst (drawFrame app' f') =
                     acquireNextImage
                       # frame_commands app' chain (acquired_buffer app' f')
                           (sint (acquire_index f'))
                       @ [submitCommandBuffers (acquired_buffer app' f') (acquire_index f')]
                       @ rest))))"
proof -
  from assms(1) obtain old where old: "lveSwapChain app = Some old"
    and layout: "pipelineLayout app = Some declared_layout"
    by (auto simp: ready_def)
  have stale: "drawFrame app f = after [acquireNextImage] (recreateSwapChain app (recreate f))"
    using old assms(2) by (rule drawFrame_stale)
  have quiet: "filter recorded (fst (drawFrame app f)) = []"
      "filter submitted (fst (drawFrame app f)) = []"
    unfolding stale using recreateSwapChain_quiet [of _ app "recreate f"]
    by (auto intro!: filter_none)
  have returns: "\<exists>evs app'. drawFrame app f = (evs, Inr app')"
    if "(\<exists>x \<in> set (first_extent (recreate f) # more_extents (recreate f)).
          width x \<noteq> 0 \<and> height x \<noteq> 0) \<and>
      \<not> chain_throws (recreate f) \<and> allocate_result (alloc (recreate f)) = VK_SUCCESS \<and>
      \<not> pipeline_throws (recreate f)"
    using recreateSwapChain_returns [of "recreate f" app declared_layout] that layout
    unfolding stale by (auto simp: after_eq)
  have after_return: "ready app' \<and>
          (\<exists>chain. lveSwapChain app' = Some chain \<and>
             reports evs \<noteq> [] \<and> swapChainExtent chain = last (reports evs) \<and>
             LveSwapChain_new (last (reports evs)) (lveSwapChain app) \<in> set evs \<and>
             width (swapChainExtent chain) \<noteq> 0 \<and> height (swapChainExtent chain) \<noteq> 0 \<and>
             ((acquire_result f' = VK_SUCCESS \<or> acquire_result f' = VK_SUBOPTIMAL_KHR) \<and>
              valid_index app' f' \<and>
              begin_result f' = VK_SUCCESS \<and> end_result f' = VK_SUCCESS
              \<longrightarrow> (\<exists>rest. fst (drawFrame app' f') =
                     acquireNextImage
                       # frame_commands app' chain (acquired_buffer app' f')
                           (sint (acquire_index f'))
                       @ [submitCommandBuffers (acquired_buffer app' f') (acquire_index f')]
                       @ rest)))"
    if ret: "drawFrame app f = (evs, Inr app')"
  proof -
    have ready': "ready app'"
      using assms(1) ret by (rule drawFrame_ready)
    from ret obtain revs where revs: "recreateSwapChain app (recreate f) = (revs, Inr app')"
      and evs: "evs = [acquireNextImage] @ revs"
      unfolding stale by (auto simp: after_eq)
    let ?inp = "recreate f"
    from recreateSwapChain_steps [OF revs] obtain k layout' where
      nz: "width (last (first_extent ?inp # take k (more_extents ?inp))) \<noteq> 0"
          "height (last (first_extent ?inp # take k (more_extents ?inp))) \<noteq> 0"
      and r: "revs = [getExtent (first_extent ?inp)] @ polls (take k (more_extents ?inp))
            @ [vkDeviceWaitIdle]
            @ [LveSwapChain_new (last (first_extent ?inp # take k (more_extents ?inp)))
                 (lveSwapChain app)]
            @ (if lveSwapChain app \<noteq> None \<and> chain_images ?inp \<noteq> length (commandBuffers app)
               then reallocation app (chain_images ?inp) else [])
            @ [pipeline_built (chain_renderPass ?inp) layout']"
      and app': "app' = app\<lparr>lveSwapChain :=
                   Some (built_chain ?inp (last (first_extent ?inp # take k (more_extents ?inp)))),
                 commandBuffers :=
                   (if lveSwapChain app \<noteq> None \<and> chain_images ?inp \<noteq> length (commandBuffers app)
                    then fresh_buffers (alloc ?inp) (chain_images ?inp)
                    else commandBuffers app),
                 lvePipeline := Some (built_pipeline (chain_renderPass ?inp) layout')\<rparr>"
      by blast
    let ?chain = "built_chain ?inp (last (first_extent ?inp # take k (more_extents ?inp)))"
    have chain: "lveSwapChain app' = Some ?chain"
      by (simp add: app')
    have reported: "reports evs = first_extent ?inp # take k (more_extents ?inp)"
      unfolding evs r by (simp add: reallocation_def pipeline_built_def)
    have ext: "swapChainExtent ?chain = last (reports evs)" "reports evs \<noteq> []"
      unfolding reported by (simp_all add: built_chain_def)
    have nz': "width (swapChainExtent ?chain) \<noteq> 0" "height (swapChainExtent ?chain) \<noteq> 0"
      using nz by (simp_all add: built_chain_def)
    have "\<exists>rest. fst (drawFrame app' f') =
                     acquireNextImage
                       # frame_commands app' ?chain (acquired_buffer app' f')
                           (sint (acquire_index f'))
                       @ [submitCommandBuffers (acquired_buffer app' f') (acquire_index f')]
                       @ rest"
      if "(acquire_result f' = VK_SUCCESS \<or> acquire_result f' = VK_SUBOPTIMAL_KHR) \<and>
              valid_index app' f' \<and>
              begin_result f' = VK_SUCCESS \<and> end_result f' = VK_SUCCESS"
      using that by (simp add: drawFrame_submits [OF ready' chain])
    moreover have "LveSwapChain_new (last (reports evs)) (lveSwapChain app) \<in> set evs"
      unfolding reported unfolding evs r by simp
    ultimately show ?thesis
      using ready' chain ext nz' by blast
  qed
  show ?thesis
    using stale quiet returns after_return by blast
qed

theorem stale_acquire_skips_frame_witness:
  "ready sample_app \<and> acquire_result stale_frame = VK_ERROR_OUT_OF_DATE_KHR \<and>
   drawFrame sample_app stale_frame
     = ([acquireNextImage, getExtent extent_400x300, vkDeviceWaitIdle,
         LveSwapChain_new extent_400x300 (lveSwapChain sample_app),
         vkFreeCommandBuffers 2 [100, 101], vkAllocateCommandBuffers 3,
         pipeline_built 8 declared_layout], Inr resized_app) \<and>
   filter recorded (fst (drawFrame sample_app stale_frame)) = [] \<and>
   filter submitted (fst (drawFrame sample_app stale_frame)) = [] \<and>
   extent_400x300 \<in> set (first_extent (recreate stale_frame) # more_extents (recreate stale_frame)) \<and>
   width extent_400x300 \<noteq> 0 \<and> height extent_400x300 \<noteq> 0 \<and>
   \<not> chain_throws (recreate stale_frame) \<and>
   allocate_result (alloc (recreate stale_frame)) = VK_SUCCESS \<and>
   \<not> pipeline_throws (recreate stale_frame) \<and>
   (\<exists>evs app'. drawFrame sample_app stale_frame = (evs, Inr app')) \<and>
   ready resized_app \<and>
   acquire_result sample_frame = VK_SUCCESS \<and> valid_index resized_app sample_frame \<and>
   begin_result sample_frame = VK_SUCCESS \<and> end_result sample_frame = VK_SUCCESS \<and>
   (\<exists>chain. lveSwapChain resized_app = Some chain \<and>
      swapChainExtent chain = extent_400x300 \<and>
      (\<exists>rest. fst (drawFrame resized_app sample_frame) =
         acquireNextImage
           # frame_commands resized_app chain (acquired_buffer resized_app sample_frame)
               (sint (acquire_index sample_frame))
           @ [submitCommandBuffers (acquired_buffer resized_app sample_frame)
                (acquire_index sample_frame)]
           @ rest))"
proof -
  let ?evs = "[acquireNextImage, getExtent extent_400x300, vkDeviceWaitIdle,
         LveSwapChain_new extent_400x300 (lveSwapChain sample_app),
         vkFreeCommandBuffers 2 [100, 101], vkAllocateCommandBuffers 3,
         pipeline_built 8 declared_layout]"
  have stale: "acquire_result stale_frame = VK_ERROR_OUT_OF_DATE_KHR"
    by (simp add: stale_frame_def)
  have drawn: "drawFrame sample_app stale_frame = (?evs, Inr resized_app)"
    by (simp add: model_defs sample_defs notion_defs vk_results upt_samples)
  have hyps: "extent_400x300
      \<in> set (first_extent (recreate stale_frame) # more_extents (recreate stale_frame))"
    "width extent_400x300 \<noteq> 0" "height extent_400x300 \<noteq> 0"
    "\<not> chain_throws (recreate stale_frame)"
    "allocate_result (alloc (recreate stale_frame)) = VK_SUCCESS"
    "\<not> pipeline_throws (recreate stale_frame)"
    by (simp_all add: sample_defs)
  have next_frame: "acquire_result sample_frame = VK_SUCCESS"
    "valid_index resized_app sample_frame"
    "begin_result sample_frame = VK_SUCCESS" "end_result sample_frame = VK_SUCCESS"
    by (simp_all add: sample_defs notion_defs)
  have last_report: "last (reports ?evs) = extent_400x300"
    by (simp add: pipeline_built_def)
  note inst = stale_acquire_skips_frame [OF sample_app_ready stale,
      of ?evs resized_app sample_frame]
  have quiet: "filter recorded (fst (drawFrame sample_app stale_frame)) = []"
    "filter submitted (fst (drawFrame sample_app stale_frame)) = []"
    using inst by blast+
  have returns: "\<exists>evs app'. drawFrame sample_app stale_frame = (evs, Inr app')"
    using inst hyps by blast
  have after_return: "ready resized_app \<and>
     (\<exists>chain. lveSwapChain resized_app = Some chain \<and>
      swapChainExtent chain = extent_400x300 \<and>
      (\<exists>rest. fst (drawFrame resized_app sample_frame) =
         acquireNextImage
           # frame_commands resized_app chain (acquired_buffer resized_app sample_frame)
               (sint (acquire_index sample_frame))
           @ [submitCommandBuffers (acquired_buffer resized_app sample_frame)
                (acquire_index sample_frame)]
           @ rest))"
    using inst drawn next_frame unfolding last_report by blast
  show ?thesis
    using sample_app_ready stale drawn quiet hyps returns next_frame after_return by blast
qed

text \<open>
  C5, as stated, fails: a submission that answers an error code while the window reports
  a resize is not fatal. Here submission answers \<open>VK_ERROR_DEVICE_LOST\<close>, which is none
  of the three codes the application expects, the window was resized, and the session
  returns normally, having recreated the chain.
\<close>

theorem submit_error_with_resize_not_fatal:
  "submit_result submit_fails_resized = VK_ERROR_DEVICE_LOST \<and>
   VK_ERROR_DEVICE_LOST \<noteq> VK_SUCCESS \<and> VK_ERROR_DEVICE_LOST \<noteq> VK_SUBOPTIMAL_KHR \<and>
   VK_ERROR_DEVICE_LOST \<noteq> VK_ERROR_OUT_OF_DATE_KHR \<and>
   window_resized submit_fails_resized \<and>
   snd (session sample_ctor [submit_fails_resized]) = Inr resized_app"
  by (simp add: model_defs sample_defs notion_defs vk_results upt_samples)

text \<open>
  C5, amended. In the steady state, in a frame that acquired a valid image: when
  beginning the recording fails, or ending it fails, or submission answers a code other
  than success, out-of-date and suboptimal while the window reports no resize, the frame
  throws, and \<open>run\<close> ends with that error right after the calls of that frame, the
  failing call being the last; the frames that would follow are not drawn. When recording
  succeeds and submission answers out-of-date or suboptimal, or the window reports a
  resize, the frame does not throw: it resets the resize flag and goes on with a
  recreation.
\<close>

theorem frame_failures_are_fatal:
  assumes "ready app" and "lveSwapChain app = Some chain"
    and "acquire_result f = VK_SUCCESS \<or> acquire_result f = VK_SUBOPTIMAL_KHR"
    and "valid_index app f"
  shows "(begin_result f \<noteq> VK_SUCCESS
          \<longrightarrow> run app (f # fs)
               = ([glfwPollEvents, acquireNextImage, vkBeginCommandBuffer (acquired_buffer app f)],
                  Inl (runtime_error ''failed to begin recording command buffer!''))) \<and>
         (begin_result f = VK_SUCCESS \<and> end_result f \<noteq> VK_SUCCESS
          \<longrightarrow> run app (f # fs)
               = (glfwPollEvents # acquireNextImage
                    # frame_commands app chain (acquired_buffer app f) (sint (acquire_index f)),
                  Inl (runtime_error ''failed to record command buffer!''))) \<and>
         (begin_result f = VK_SUCCESS \<and> end_result f = VK_SUCCESS \<and>
          submit_result f \<noteq> VK_SUCCESS \<and> submit_result f \<noteq> VK_ERROR_OUT_OF_DATE_KHR \<and>
          submit_result f \<noteq> VK_SUBOPTIMAL_KHR \<and> \<not> window_resized f
          \<longrightarrow> run app (f # fs)
               = (glfwPollEvents # acquireNextImage
                    # frame_commands app chain (acquired_buffer app f) (sint (acquire_index f))
                    @ [submitCommandBuffers (acquired_buffer app f) (acquire_index f)],
                  Inl (runtime_error ''failed to present swap chain image!''))) \<and>
         (begin_result f = VK_SUCCESS \<and> end_result f = VK_SUCCESS \<and>
          (submit_result f = VK_ERROR_OUT_OF_DATE_KHR \<or> submit_result f = VK_SUBOPTIMAL_KHR
             \<or> window_resized f)
          \<longrightarrow> drawFrame app f
               = after (acquireNextImage
                    # frame_commands app chain (acquired_buffer app f) (sint (acquire_index f))
                    @ [submitCommandBuffers (acquired_buffer app f) (acquire_index f),
                       resetWindowResizedFlag])
                   (recreateSwapChain app (recreate f)))"
proof (intro conjI impI)
  assume "begin_result f \<noteq> VK_SUCCESS"
  then have "drawFrame app f
      = ([acquireNextImage, vkBeginCommandBuffer (acquired_buffer app f)],
         Inl (runtime_error ''failed to begin recording command buffer!''))"
    unfolding drawFrame_acquired [OF assms] by (simp add: after_def throw_def)
  then show "run app (f # fs)
               = ([glfwPollEvents, acquireNextImage, vkBeginCommandBuffer (acquired_buffer app f)],
                  Inl (runtime_error ''failed to begin recording command buffer!''))"
    by (simp add: run_throws)
next
  assume "begin_result f = VK_SUCCESS \<and> end_result f \<noteq> VK_SUCCESS"
  then have "drawFrame app f
      = (acquireNextImage
           # frame_commands app chain (acquired_buffer app f) (sint (acquire_index f)),
         Inl (runtime_error ''failed to record command buffer!''))"
    unfolding drawFrame_acquired [OF assms]
    by (simp add: after_def throw_def frame_commands_def)
  then show "run app (f # fs)
               = (glfwPollEvents # acquireNextImage
                    # frame_commands app chain (acquired_buffer app f) (sint (acquire_index f)),
                  Inl (runtime_error ''failed to record command buffer!''))"
    by (simp add: run_throws)
next
  assume a: "begin_result f = VK_SUCCESS \<and> end_result f = VK_SUCCESS \<and>
          submit_result f \<noteq> VK_SUCCESS \<and> submit_result f \<noteq> VK_ERROR_OUT_OF_DATE_KHR \<and>
          submit_result f \<noteq> VK_SUBOPTIMAL_KHR \<and> \<not> window_resized f"
  then have "drawFrame app f
      = (acquireNextImage
           # frame_commands app chain (acquired_buffer app f) (sint (acquire_index f))
           @ [submitCommandBuffers (acquired_buffer app f) (acquire_index f)],
         Inl (runtime_error ''failed to present swap chain image!''))"
    using drawFrame_submits [OF assms, of ] by (simp add: after_def throw_def)
  then show "run app (f # fs)
               = (glfwPollEvents # acquireNextImage
                    # frame_commands app chain (acquired_buffer app f) (sint (acquire_index f))
                    @ [submitCommandBuffers (acquired_buffer app f) (acquire_index f)],
                  Inl (runtime_error ''failed to present swap chain image!''))"
    by (simp add: run_throws)
next
  assume a: "begin_result f = VK_SUCCESS \<and> end_result f = VK_SUCCESS \<and>
          (submit_result f = VK_ERROR_OUT_OF_DATE_KHR \<or> submit_result f = VK_SUBOPTIMAL_KHR
             \<or> window_resized f)"
  then show "drawFrame app f
               = after (acquireNextImage
                    # frame_commands app chain (acquired_buffer app f) (sint (acquire_index f))
                    @ [submitCommandBuffers (acquired_buffer app f) (acquire_index f),
                       resetWindowResizedFlag])
                   (recreateSwapChain app (recreate f))"
    using drawFrame_submits [OF assms] by (auto simp: after_def)
qed

theorem frame_failures_are_fatal_witness:
  "ready sample_app \<and>
   lveSwapChain sample_app
     = Some \<lparr>swapChainExtent = extent_800x600, imageCount = 2, renderPass = 7\<rparr> \<and>
   acquire_result begin_fails = VK_SUCCESS \<and> valid_index sample_app begin_fails \<and>
   begin_result begin_fails \<noteq> VK_SUCCESS \<and>
   run sample_app [begin_fails, sample_frame]
     = ([glfwPollEvents, acquireNextImage, vkBeginCommandBuffer 101],
        Inl (runtime_error ''failed to begin recording command buffer!'')) \<and>
   acquire_result end_fails = VK_SUCCESS \<and> valid_index sample_app end_fails \<and>
   begin_result end_fails = VK_SUCCESS \<and> end_result end_fails \<noteq> VK_SUCCESS \<and>
   snd (run sample_app [end_fails, sample_frame])
     = Inl (runtime_error ''failed to record command buffer!'') \<and>
   acquire_result submit_fails = VK_SUCCESS \<and> valid_index sample_app submit_fails \<and>
   begin_result submit_fails = VK_SUCCESS \<and> end_result submit_fails = VK_SUCCESS \<and>
   submit_result submit_fails \<noteq> VK_SUCCESS \<and>
   submit_result submit_fails \<noteq> VK_ERROR_OUT_OF_DATE_KHR \<and>
   submit_result submit_fails \<noteq> VK_SUBOPTIMAL_KHR \<and> \<not> window_resized submit_fails \<and>
   snd (run sample_app [submit_fails, sample_frame])
     = Inl (runtime_error ''failed to present swap chain image!'') \<and>
   acquire_result submit_suboptimal = VK_SUCCESS \<and> valid_index sample_app submit_suboptimal \<and>
   begin_result submit_suboptimal = VK_SUCCESS \<and> end_result submit_suboptimal = VK_SUCCESS \<and>
   submit_result submit_suboptimal = VK_SUBOPTIMAL_KHR \<and>
   snd (drawFrame sample_app submit_suboptimal)
     = snd (recreateSwapChain sample_app (recreate submit_suboptimal))"
proof -
  let ?chain = "\<lparr>swapChainExtent = extent_800x600, imageCount = 2, renderPass = 7\<rparr>"
  have chain: "lveSwapChain sample_app = Some ?chain"
    by (simp add: sample_app_def)
  have b: "acquire_result begin_fails = VK_SUCCESS" "valid_index sample_app begin_fails"
      "begin_result begin_fails \<noteq> VK_SUCCESS"
      "acquired_buffer sample_app begin_fails = 101"
    by (simp_all add: sample_defs notion_defs vk_results)
  have e: "acquire_result end_fails = VK_SUCCESS" "valid_index sample_app end_fails"
      "begin_result end_fails = VK_SUCCESS" "end_result end_fails \<noteq> VK_SUCCESS"
    by (simp_all add: sample_defs notion_defs vk_results)
  have s: "acquire_result submit_fails = VK_SUCCESS" "valid_index sample_app submit_fails"
      "begin_result submit_fails = VK_SUCCESS" "end_result submit_fails = VK_SUCCESS"
      "submit_result submit_fails \<noteq> VK_SUCCESS"
      "submit_result submit_fails \<noteq> VK_ERROR_OUT_OF_DATE_KHR"
      "submit_result submit_fails \<noteq> VK_SUBOPTIMAL_KHR" "\<not> window_resized submit_fails"
    by (simp_all add: sample_defs notion_defs vk_results)
  have r: "acquire_result submit_suboptimal = VK_SUCCESS"
      "valid_index sample_app submit_suboptimal"
      "begin_result submit_suboptimal = VK_SUCCESS" "end_result submit_suboptimal = VK_SUCCESS"
      "submit_result submit_suboptimal = VK_SUBOPTIMAL_KHR"
    by (simp_all add: sample_defs notion_defs vk_results)
  have 1: "run sample_app [begin_fails, sample_frame]
     = ([glfwPollEvents, acquireNextImage, vkBeginCommandBuffer 101],
        Inl (runtime_error ''failed to begin recording command buffer!''))"
    using frame_failures_are_fatal [OF sample_app_ready chain disjI1 [OF b(1)] b(2),
        of "[sample_frame]"] b(3,4)
    by simp
  have 2: "snd (run sample_app [end_fails, sample_frame])
     = Inl (runtime_error ''failed to record command buffer!'')"
    using frame_failures_are_fatal [OF sample_app_ready chain disjI1 [OF e(1)] e(2),
        of "[sample_frame]"] e(3,4)
    by simp
  have 3: "snd (run sample_app [submit_fails, sample_frame])
     = Inl (runtime_error ''failed to present swap chain image!'')"
    using frame_failures_are_fatal [OF sample_app_ready chain disjI1 [OF s(1)] s(2),
        of "[sample_frame]"] s(3-8)
    by simp
  have 4: "snd (drawFrame sample_app submit_suboptimal)
     = snd (recreateSwapChain sample_app (recreate submit_suboptimal))"
    using frame_failures_are_fatal [OF sample_app_ready chain disjI1 [OF r(1)] r(2)] r(3-5)
    by simp
  show ?thesis
    using sample_app_ready chain b(1-3) e s r 1 2 3 4 by blast
qed

text \<open>
  C6, as stated, fails: the payload is computed in binary32, where \<^verbatim>\<open>-0.4f\<close> is not
  \<open>-0.4\<close> and \<^verbatim>\<open>0.2f\<close> is not \<open>0.2\<close>. For instance 0, which every recording pushes,
  the vertical offset is \<open>-13421773 / 2\<^sup>2\<^sup>5\<close>, not \<open>-0.4 + 0 \<cdot> 0.25\<close>, and the blue
  channel is \<open>13421773 / 2\<^sup>2\<^sup>6\<close>, not \<open>0.2 + 0.2 \<cdot> 0\<close>.
\<close>

theorem first_instance_payload_not_exact:
  "vertical_offset (push 0) = - (13421773 / 33554432) \<and>
   vertical_offset (push 0) \<noteq> - (4 / 10) + of_int 0 * (25 / 100) \<and>
   blue (push 0) = 13421773 / 67108864 \<and>
   blue (push 0) \<noteq> 2 / 10 + 2 / 10 * of_int 0 \<and>
   vkCmdPushConstants 101 (Some declared_layout) 17 0 32 (push 0)
     \<in> set (fst (session sample_ctor [sample_frame]))"
proof -
  have "vkCmdPushConstants 101 (Some declared_layout) 17 0 32 (push 0)
     \<in> set (fst (session sample_ctor [sample_frame]))"
    by (simp add: model_defs sample_defs notion_defs vk_results upt_samples
          sizeof_SimplePushConstantData VK_SHADER_STAGE_VERTEX_BIT_def
          VK_SHADER_STAGE_FRAGMENT_BIT_def)
  then show ?thesis
    by (simp add: push_0 component_defs)
qed

text \<open>
  C6, amended. The loop of a recording pushes exactly four payloads, those of the
  instances 0, 1, 2 and 3 in this order, each followed by a draw. In every session the
  payload of every push is \<open>push i\<close> for an instance \<open>0 \<le> i < 4\<close>: a function of the
  instance index alone, the same in every run. For these instances the horizontal offset
  is 0; the vertical offset, computed in binary32 as \<^verbatim>\<open>-0.4f + i * 0.25f\<close>, is
  \<open>-0.4 + i \<cdot> 0.25 - 1 / 167772160\<close>; red and green are 0; and the blue channel, computed
  in binary32 as \<^verbatim>\<open>0.2f + 0.2f * i\<close>, is \<open>13421773 / 2\<^sup>2\<^sup>6\<close>, \<open>13421773 / 2\<^sup>2\<^sup>5\<close>,
  \<open>5033165 / 2\<^sup>2\<^sup>3\<close> and \<open>13421773 / 2\<^sup>2\<^sup>4\<close>, above \<open>0.2 + 0.2 \<cdot> i\<close> by less than
  \<open>2\<^sup>-\<^sup>2\<^sup>5\<close>.
\<close>

theorem push_payload_of_instance:
  "push_and_draw app cb 0
     = (instance_commands app cb 0 @ instance_commands app cb 1
          @ instance_commands app cb 2 @ instance_commands app cb 3, Inr ()) \<and>
   (vkCmdPushConstants buffer layout stages off sz payload \<in> set (fst (session c fs))
      \<longrightarrow> (\<exists>i. 0 \<le> i \<and> i < 4 \<and> payload = push i)) \<and>
   (0 \<le> i \<and> i < 4
      \<longrightarrow> horizontal_offset (push i) = 0 \<and>
          vertical_offset (push i) = - (4 / 10) + of_int i * (25 / 100) - 1 / 167772160 \<and>
          red (push i) = 0 \<and> green (push i) = 0 \<and>
          blue (push i) = [13421773 / 67108864, 13421773 / 33554432,
                           5033165 / 8388608, 13421773 / 16777216] ! nat i \<and>
          2 / 10 + 2 / 10 * of_int i < blue (push i) \<and>
          blue (push i) - (2 / 10 + 2 / 10 * of_int i) < 1 / 2 ^ 25)"
proof (intro conjI impI)
  show "push_and_draw app cb 0
     = (instance_commands app cb 0 @ instance_commands app cb 1
          @ instance_commands app cb 2 @ instance_commands app cb 3, Inr ())"
    by (rule push_and_draw_0)
next
  assume "vkCmdPushConstants buffer layout stages off sz payload \<in> set (fst (session c fs))"
  then have "expected (vkCmdPushConstants buffer layout stages off sz payload)"
    by (rule session_expected)
  then have "payload = push 0 \<or> payload = push 1 \<or> payload = push 2 \<or> payload = push 3"
    by auto
  then show "\<exists>i. 0 \<le> i \<and> i < 4 \<and> payload = push i"
  proof (elim disjE)
    assume "payload = push 0"
    then show ?thesis by (intro exI [of _ 0]) simp
  next
    assume "payload = push 1"
    then show ?thesis by (intro exI [of _ 1]) simp
  next
    assume "payload = push 2"
    then show ?thesis by (intro exI [of _ 2]) simp
  next
    assume "payload = push 3"
    then show ?thesis by (intro exI [of _ 3]) simp
  qed
next
  assume "0 \<le> i \<and> i < 4"
  then have i: "i = 0 \<or> i = 1 \<or> i = 2 \<or> i = 3"
    using instance_cases by blast
  then show "horizontal_offset (push i) = 0" and "red (push i) = 0" and "green (push i) = 0"
    by (auto simp: push_0 push_1 push_2 push_3 component_defs)
  from i show "vertical_offset (push i) = - (4 / 10) + of_int i * (25 / 100) - 1 / 167772160"
    by (auto simp: push_0 push_1 push_2 push_3 component_defs)
  from i show "blue (push i) = [13421773 / 67108864, 13421773 / 33554432,
                           5033165 / 8388608, 13421773 / 16777216] ! nat i"
    by (auto simp: push_0 push_1 push_2 push_3 component_defs)
  from i show "2 / 10 + 2 / 10 * of_int i < blue (push i)"
    by (auto simp: push_0 push_1 push_2 push_3 component_defs)
  from i show "blue (push i) - (2 / 10 + 2 / 10 * of_int i) < 1 / 2 ^ 25"
    by (auto simp: push_0 push_1 push_2 push_3 component_defs)
qed

theorem push_payload_of_instance_witness:
  "vkCmdPushConstants 101 (Some declared_layout) 17 0 32 (push 2)
     \<in> set (fst (session sample_ctor [sample_frame])) \<and>
   (\<exists>i. 0 \<le> i \<and> i < 4 \<and> push 2 = push i) \<and>
   (0::int) \<le> 2 \<and> (2::int) < 4 \<and>
   horizontal_offset (push 2) = 0 \<and>
   vertical_offset (push 2) = 3355443 / 33554432 \<and>
   red (push 2) = 0 \<and> green (push 2) = 0 \<and>
   blue (push 2) = 5033165 / 8388608 \<and>
   6 / 10 < blue (push 2) \<and> blue (push 2) - 6 / 10 < 1 / 2 ^ 25"
proof -
  have pushed: "vkCmdPushConstants 101 (Some declared_layout) 17 0 32 (push 2)
     \<in> set (fst (session sample_ctor [sample_frame]))"
    by (simp add: model_defs sample_defs notion_defs vk_results upt_samples
          sizeof_SimplePushConstantData VK_SHADER_STAGE_VERTEX_BIT_def
          VK_SHADER_STAGE_FRAGMENT_BIT_def)
  note inst = push_payload_of_instance [of sample_app 101 101 "Some declared_layout" 17 0 32
      "push 2" sample_ctor "[sample_frame]" 2]
  have known: "\<exists>i. 0 \<le> i \<and> i < 4 \<and> push 2 = push i"
    using inst pushed by blast
  have vals: "horizontal_offset (push 2) = 0 \<and>
          vertical_offset (push 2) = - (4 / 10) + of_int 2 * (25 / 100) - 1 / 167772160 \<and>
          red (push 2) = 0 \<and> green (push 2) = 0 \<and>
          blue (push 2) = [13421773 / 67108864, 13421773 / 33554432,
                           5033165 / 8388608, 13421773 / 16777216] ! nat 2 \<and>
          2 / 10 + 2 / 10 * of_int 2 < blue (push 2) \<and>
          blue (push 2) - (2 / 10 + 2 / 10 * of_int 2) < 1 / 2 ^ 25"
    using inst by simp
  have two: "nat 2 = Suc (Suc 0)"
    by simp
  show ?thesis
    using pushed known vals unfolding two by simp
qed

text \<open>
  C7. When \<open>recreateSwapChain\<close> returns and the image count of the new chain is the
  number of command buffers held before, the command buffers are the same as before, no
  call freed or allocated command buffers, the pipeline was constructed again for the
  render pass of the new chain, and the application differs from the one before in its
  chain and its pipeline only.
\<close>

theorem same_image_count_reuses_buffers:
  assumes "recreateSwapChain app inp = (evs, Inr app')"
    and "lveSwapChain app' = Some chain"
    and "imageCount chain = length (commandBuffers app)"
  shows "commandBuffers app' = commandBuffers app \<and>
         filter buffer_set_call evs = [] \<and>
         (\<exists>layout. pipelineLayout app = Some layout \<and>
            pipeline_built (renderPass chain) layout \<in> set evs \<and>
            lvePipeline app' = Some (built_pipeline (renderPass chain) layout)) \<and>
         app' = app\<lparr>lveSwapChain := Some chain, lvePipeline := lvePipeline app'\<rparr>"
proof -
  from recreateSwapChain_steps [OF assms(1)] obtain k layout where
    layout: "pipelineLayout app = Some layout"
    and evs: "evs = [getExtent (first_extent inp)] @ polls (take k (more_extents inp))
            @ [vkDeviceWaitIdle]
            @ [LveSwapChain_new (last (first_extent inp # take k (more_extents inp)))
                 (lveSwapChain app)]
            @ (if lveSwapChain app \<noteq> None \<and> chain_images inp \<noteq> length (commandBuffers app)
               then reallocation app (chain_images inp) else [])
            @ [pipeline_built (chain_renderPass inp) layout]"
    and app': "app' = app\<lparr>lveSwapChain :=
                   Some (built_chain inp (last (first_extent inp # take k (more_extents inp)))),
                 commandBuffers :=
                   (if lveSwapChain app \<noteq> None \<and> chain_images inp \<noteq> length (commandBuffers app)
                    then fresh_buffers (alloc inp) (chain_images inp)
                    else commandBuffers app),
                 lvePipeline := Some (built_pipeline (chain_renderPass inp) layout)\<rparr>"
    by blast
  have chain: "chain = built_chain inp (last (first_extent inp # take k (more_extents inp)))"
    using assms(2) by (simp add: app')
  then have same: "chain_images inp = length (commandBuffers app)"
    and pass: "renderPass chain = chain_renderPass inp"
    using assms(3) by (simp_all add: built_chain_def)
  have "commandBuffers app' = commandBuffers app"
    using same by (simp add: app')
  moreover have "filter buffer_set_call evs = []"
    unfolding evs using same by (simp add: pipeline_built_def)
  moreover have "pipeline_built (renderPass chain) layout \<in> set evs"
    unfolding evs pass by simp
  moreover have "lvePipeline app' = Some (built_pipeline (renderPass chain) layout)"
    unfolding pass by (simp add: app')
  moreover have "app' = app\<lparr>lveSwapChain := Some chain, lvePipeline := lvePipeline app'\<rparr>"
    using same chain by (simp add: app')
  ultimately show ?thesis
    using layout by blast
qed

theorem same_image_count_reuses_buffers_witness:
  "recreateSwapChain sample_app sample_recreate
     = (fst (recreateSwapChain sample_app sample_recreate),
        Inr (sample_app\<lparr>lveSwapChain := Some (built_chain sample_recreate extent_800x600)\<rparr>)) \<and>
   imageCount (built_chain sample_recreate extent_800x600) = length (commandBuffers sample_app) \<and>
   commandBuffers (sample_app\<lparr>lveSwapChain := Some (built_chain sample_recreate extent_800x600)\<rparr>)
     = [100, 101] \<and>
   filter buffer_set_call (fst (recreateSwapChain sample_app sample_recreate)) = [] \<and>
   pipeline_built 7 declared_layout \<in> set (fst (recreateSwapChain sample_app sample_recreate))"
proof -
  let ?app' = "sample_app\<lparr>lveSwapChain := Some (built_chain sample_recreate extent_800x600)\<rparr>"
  have r: "recreateSwapChain sample_app sample_recreate
     = (fst (recreateSwapChain sample_app sample_recreate), Inr ?app')"
    by (simp add: prod_eq_iff model_defs sample_defs notion_defs vk_results)
  have c: "lveSwapChain ?app' = Some (built_chain sample_recreate extent_800x600)"
    by simp
  have n: "imageCount (built_chain sample_recreate extent_800x600)
             = length (commandBuffers sample_app)"
    by (simp add: sample_defs notion_defs)
  have l: "pipelineLayout sample_app = Some declared_layout"
      "renderPass (built_chain sample_recreate extent_800x600) = 7"
      "commandBuffers sample_app = [100, 101]"
    by (simp_all add: sample_defs notion_defs)
  show ?thesis
    using r n l same_image_count_reuses_buffers [OF r c n] by auto
qed

text \<open>
  C8, as stated, fails: after a suboptimal acquisition the chain is rebuilt only if the
  submission or the window asks for it. Here the acquisition answers suboptimal, the
  submission answers success and the window reports no resize: the frame is recorded and
  submitted, and the next frame acquires from the same chain, no chain having been
  constructed in between.
\<close>

theorem suboptimal_acquire_without_rebuild:
  "acquire_result acquire_suboptimal = VK_SUBOPTIMAL_KHR \<and>
   frames sample_app [acquire_suboptimal, sample_frame]
     = (glfwPollEvents # acquireNextImage
          # frame_commands sample_app
              \<lparr>swapChainExtent = extent_800x600, imageCount = 2, renderPass = 7\<rparr> 101 1
          @ submitCommandBuffers 101 1
          # glfwPollEvents # acquireNextImage
          # frame_commands sample_app
              \<lparr>swapChainExtent = extent_800x600, imageCount = 2, renderPass = 7\<rparr> 101 1
          @ [submitCommandBuffers 101 1],
        Inr sample_app)"
  by (simp add: model_defs sample_defs notion_defs vk_results upt_samples)

text \<open>
  C8, amended. In the steady state, a frame whose acquisition answers suboptimal with a
  valid image runs exactly as if the acquisition had answered success. When its recording
  succeeds, the frame is recorded and submitted; the chain is then rebuilt, before the
  next acquisition, when the submission answers out-of-date or suboptimal or the window
  reports a resize; when the submission answers success and the window reports no resize,
  the frame ends there and the application is unchanged.
\<close>

theorem suboptimal_acquire_is_drawn:
  assumes "ready app" and "lveSwapChain app = Some chain"
    and "acquire_result f = VK_SUBOPTIMAL_KHR" and "valid_index app f"
  shows "drawFrame app f = drawFrame app (f\<lparr>acquire_result := VK_SUCCESS\<rparr>) \<and>
     (begin_result f = VK_SUCCESS \<and> end_result f = VK_SUCCESS \<and>
      (submit_result f = VK_ERROR_OUT_OF_DATE_KHR \<or> submit_result f = VK_SUBOPTIMAL_KHR
         \<or> window_resized f)
      \<longrightarrow> drawFrame app f
           = after (acquireNextImage
                # frame_commands app chain (acquired_buffer app f) (sint (acquire_index f))
                @ [submitCommandBuffers (acquired_buffer app f) (acquire_index f),
                   resetWindowResizedFlag])
               (recreateSwapChain app (recreate f))) \<and>
     (begin_result f = VK_SUCCESS \<and> end_result f = VK_SUCCESS \<and>
      submit_result f = VK_SUCCESS \<and> \<not> window_resized f
      \<longrightarrow> drawFrame app f
           = (acquireNextImage
                # frame_commands app chain (acquired_buffer app f) (sint (acquire_index f))
                @ [submitCommandBuffers (acquired_buffer app f) (acquire_index f)],
              Inr app))"
proof (intro conjI impI)
  let ?g = "f\<lparr>acquire_result := VK_SUCCESS\<rparr>"
  have g: "acquire_result ?g = VK_SUCCESS \<or> acquire_result ?g = VK_SUBOPTIMAL_KHR"
      "valid_index app ?g"
    using assms(4) by (simp_all add: valid_index_def)
  show "drawFrame app f = drawFrame app ?g"
    unfolding drawFrame_acquired [OF assms(1,2) disjI2 [OF assms(3)] assms(4)]
      drawFrame_acquired [OF assms(1,2) g]
    by (simp add: acquired_buffer_def)
next
  assume "begin_result f = VK_SUCCESS \<and> end_result f = VK_SUCCESS \<and>
      (submit_result f = VK_ERROR_OUT_OF_DATE_KHR \<or> submit_result f = VK_SUBOPTIMAL_KHR
         \<or> window_resized f)"
  then show "drawFrame app f
           = after (acquireNextImage
                # frame_commands app chain (acquired_buffer app f) (sint (acquire_index f))
                @ [submitCommandBuffers (acquired_buffer app f) (acquire_index f),
                   resetWindowResizedFlag])
               (recreateSwapChain app (recreate f))"
    using drawFrame_submits [OF assms(1,2) disjI2 [OF assms(3)] assms(4)]
    by (auto simp: after_def)
next
  assume "begin_result f = VK_SUCCESS \<and> end_result f = VK_SUCCESS \<and>
      submit_result f = VK_SUCCESS \<and> \<not> window_resized f"
  then show "drawFrame app f
           = (acquireNextImage
                # frame_commands app chain (acquired_buffer app f) (sint (acquire_index f))
                @ [submitCommandBuffers (acquired_buffer app f) (acquire_index f)],
              Inr app)"
    using drawFrame_submits [OF assms(1,2) disjI2 [OF assms(3)] assms(4)]
    by (auto simp: after_def return_def vk_results)
qed

theorem suboptimal_acquire_is_drawn_witness:
  "ready sample_app \<and>
   lveSwapChain sample_app
     = Some \<lparr>swapChainExtent = extent_800x600, imageCount = 2, renderPass = 7\<rparr> \<and>
   acquire_result acquire_suboptimal = VK_SUBOPTIMAL_KHR \<and>
   valid_index sample_app acquire_suboptimal \<and>
   begin_result acquire_suboptimal = VK_SUCCESS \<and> end_result acquire_suboptimal = VK_SUCCESS \<and>
   submit_result acquire_suboptimal = VK_SUCCESS \<and> \<not> window_resized acquire_suboptimal \<and>
   drawFrame sample_app acquire_suboptimal = drawFrame sample_app sample_frame \<and>
   snd (drawFrame sample_app acquire_suboptimal) = Inr sample_app \<and>
   acquire_result both_suboptimal = VK_SUBOPTIMAL_KHR \<and>
   valid_index sample_app both_suboptimal \<and>
   begin_result both_suboptimal = VK_SUCCESS \<and> end_result both_suboptimal = VK_SUCCESS \<and>
   submit_result both_suboptimal = VK_SUBOPTIMAL_KHR \<and>
   snd (drawFrame sample_app both_suboptimal)
     = snd (recreateSwapChain sample_app (recreate both_suboptimal))"
proof -
  let ?chain = "\<lparr>swapChainExtent = extent_800x600, imageCount = 2, renderPass = 7\<rparr>"
  have chain: "lveSwapChain sample_app = Some ?chain"
    by (simp add: sample_app_def)
  have a: "acquire_result acquire_suboptimal = VK_SUBOPTIMAL_KHR"
      "valid_index sample_app acquire_suboptimal"
      "begin_result acquire_suboptimal = VK_SUCCESS" "end_result acquire_suboptimal = VK_SUCCESS"
      "submit_result acquire_suboptimal = VK_SUCCESS" "\<not> window_resized acquire_suboptimal"
    by (simp_all add: sample_defs notion_defs)
  have same: "acquire_suboptimal\<lparr>acquire_result := VK_SUCCESS\<rparr> = sample_frame"
    by (simp add: sample_defs)
  have b: "acquire_result both_suboptimal = VK_SUBOPTIMAL_KHR"
      "valid_index sample_app both_suboptimal"
      "begin_result both_suboptimal = VK_SUCCESS" "end_result both_suboptimal = VK_SUCCESS"
      "submit_result both_suboptimal = VK_SUBOPTIMAL_KHR"
    by (simp_all add: sample_defs notion_defs)
  note inst_a = suboptimal_acquire_is_drawn [OF sample_app_ready chain a(1,2)]
  note inst_b = suboptimal_acquire_is_drawn [OF sample_app_ready chain b(1,2)]
  have 1: "drawFrame sample_app acquire_suboptimal = drawFrame sample_app sample_frame"
    using inst_a unfolding same by blast
  have "\<exists>evs. drawFrame sample_app acquire_suboptimal = (evs, Inr sample_app)"
    using inst_a a(3-6) by blast
  then have 2: "snd (drawFrame sample_app acquire_suboptimal) = Inr sample_app"
    by auto
  have "\<exists>evs. drawFrame sample_app both_suboptimal
      = after evs (recreateSwapChain sample_app (recreate both_suboptimal))"
    using inst_b b(3-5) by blast
  then have 3: "snd (drawFrame sample_app both_suboptimal)
     = snd (recreateSwapChain sample_app (recreate both_suboptimal))"
    by auto
  show ?thesis
    using sample_app_ready chain a b 1 2 3 by blast
qed

text \<open>
  C9. For every depth \<open>d \<ge> 0\<close> and every width, height, px and py, whatever the float
  arithmetic does, \<open>Sierpinski\<close> returns, and it returns the list it was given followed
  by exactly \<open>3 \<cdot> 3\<^sup>d\<close> new vertices. The new vertices \<open>ws\<close> are fixed before the
  incoming list \<open>vs\<close> is chosen: they depend on the other arguments only, and the
  elements already present are unchanged.
\<close>

theorem Sierpinski_appends:
  "0 \<le> depth \<Longrightarrow>
   \<exists>ws. length ws = 3 * 3 ^ nat depth \<and>
        (\<forall>vs. Sierpinski fl depth w h px py vs = Some (vs @ ws))"
  using Sierpinski_nat [of "nat depth" fl w h px py] by simp

theorem Sierpinski_appends_witness:
  "(0::int) \<le> 1 \<and>
   (\<exists>ws. length ws = 3 * 3 ^ nat 1 \<and>
        (\<forall>vs. Sierpinski exact_ops 1 1 1 (- 1 / 2) (1 / 2) vs = Some (vs @ ws)))"
  using Sierpinski_appends [of 1 exact_ops 1 1 "- 1 / 2" "1 / 2"] by simp
text \<open>
  C10. In every session, a pipeline layout is only ever created from a description with
  exactly one push-constant range: stages vertex and fragment, offset 0, size
  \<^verbatim>\<open>sizeof(SimplePushConstantData)\<close>, which is 32 bytes. Every push of constants of the
  session names the layout created by the constructor, those stages, offset 0 and that
  size, so the bytes pushed are the bytes of the declared range.
\<close>

theorem pushes_match_declared_range:
  "(vkCreatePipelineLayout info \<in> set (fst (session c fs))
      \<longrightarrow> (\<exists>range. pushConstantRanges info = [range] \<and>
             stageFlags range = VK_SHADER_STAGE_VERTEX_BIT OR VK_SHADER_STAGE_FRAGMENT_BIT \<and>
             offset range = 0 \<and>
             size' range = of_nat sizeof_SimplePushConstantData \<and> size' range = 32)) \<and>
   (vkCmdPushConstants cb layout stages off sz payload \<in> set (fst (session c fs))
      \<longrightarrow> (\<exists>info range.
             vkCreatePipelineLayout info \<in> set (fst (session c fs)) \<and>
             layout = Some info \<and> pushConstantRanges info = [range] \<and>
             stages = stageFlags range \<and> off = offset range \<and> sz = size' range \<and>
             stages = VK_SHADER_STAGE_VERTEX_BIT OR VK_SHADER_STAGE_FRAGMENT_BIT \<and>
             off = 0 \<and> sz = of_nat sizeof_SimplePushConstantData \<and>
             unat (offset range) \<le> unat off \<and>
             unat off + unat sz \<le> unat (offset range) + unat (size' range)))"
proof (intro conjI impI)
  assume "vkCreatePipelineLayout info \<in> set (fst (session c fs))"
  then have "expected (vkCreatePipelineLayout info)"
    by (rule session_expected)
  then have "info = declared_layout"
    by simp
  then show "\<exists>range. pushConstantRanges info = [range] \<and>
             stageFlags range = VK_SHADER_STAGE_VERTEX_BIT OR VK_SHADER_STAGE_FRAGMENT_BIT \<and>
             offset range = 0 \<and>
             size' range = of_nat sizeof_SimplePushConstantData \<and> size' range = 32"
    by (simp add: declared_layout_def declared_range_def sizeof_SimplePushConstantData)
next
  assume pushed: "vkCmdPushConstants cb layout stages off sz payload \<in> set (fst (session c fs))"
  then have "expected (vkCmdPushConstants cb layout stages off sz payload)"
    by (rule session_expected)
  then have shape: "layout = Some declared_layout" "stages = stageFlags declared_range"
      "off = offset declared_range" "sz = size' declared_range"
    by simp_all
  have "\<not> recorded e" if "e \<in> set (fst (FirstApp_ctor c))" for e
    using that by (rule FirstApp_ctor_quiet)
  then have "vkCmdPushConstants cb layout stages off sz payload \<notin> set (fst (FirstApp_ctor c))"
    by fastforce
  then obtain app where "snd (FirstApp_ctor c) = Inr app"
    using pushed unfolding session_def by (auto dest!: in_events_seq)
  then have "FirstApp_ctor c = (fst (FirstApp_ctor c), Inr app)"
    by (simp add: prod_eq_iff)
  then have "vkCreatePipelineLayout declared_layout \<in> set (fst (FirstApp_ctor c))"
    by (rule FirstApp_ctor_creates_layout)
  then have created: "vkCreatePipelineLayout declared_layout \<in> set (fst (session c fs))"
    by (cases "snd (FirstApp_ctor c)") (auto simp: session_def seq_def)
  show "\<exists>info range.
             vkCreatePipelineLayout info \<in> set (fst (session c fs)) \<and>
             layout = Some info \<and> pushConstantRanges info = [range] \<and>
             stages = stageFlags range \<and> off = offset range \<and> sz = size' range \<and>
             stages = VK_SHADER_STAGE_VERTEX_BIT OR VK_SHADER_STAGE_FRAGMENT_BIT \<and>
             off = 0 \<and> sz = of_nat sizeof_SimplePushConstantData \<and>
             unat (offset range) \<le> unat off \<and>
             unat off + unat sz \<le> unat (offset range) + unat (size' range)"
    apply (rule exI [of _ declared_layout], rule exI [of _ declared_range])
    using created shape by (simp add: declared_layout_def declared_range_def)
qed

theorem pushes_match_declared_range_witness:
  "vkCreatePipelineLayout declared_layout \<in> set (fst (session sample_ctor [sample_frame])) \<and>
   vkCmdPushConstants 101 (Some declared_layout) 17 0 32 (push 2)
     \<in> set (fst (session sample_ctor [sample_frame])) \<and>
   (\<exists>range. pushConstantRanges declared_layout = [range] \<and>
      stageFlags range = VK_SHADER_STAGE_VERTEX_BIT OR VK_SHADER_STAGE_FRAGMENT_BIT \<and>
      offset range = 0 \<and>
      size' range = of_nat sizeof_SimplePushConstantData \<and> size' range = 32) \<and>
   (\<exists>info range.
      vkCreatePipelineLayout info \<in> set (fst (session sample_ctor [sample_frame])) \<and>
      Some declared_layout = Some info \<and> pushConstantRanges info = [range] \<and>
      17 = stageFlags range \<and> 0 = offset range \<and> 32 = size' range)"
proof -
  have a: "vkCreatePipelineLayout declared_layout
      \<in> set (fst (session sample_ctor [sample_frame]))"
    by (simp add: model_defs sample_defs notion_defs vk_results upt_samples)
  have b: "vkCmdPushConstants 101 (Some declared_layout) 17 0 32 (push 2)
     \<in> set (fst (session sample_ctor [sample_frame]))"
    by (simp add: model_defs sample_defs notion_defs vk_results upt_samples
          sizeof_SimplePushConstantData VK_SHADER_STAGE_VERTEX_BIT_def
          VK_SHADER_STAGE_FRAGMENT_BIT_def)
  note inst = pushes_match_declared_range [of declared_layout sample_ctor "[sample_frame]"
      101 "Some declared_layout" 17 0 32 "push 2"]
  have c: "\<exists>range. pushConstantRanges declared_layout = [range] \<and>
      stageFlags range = VK_SHADER_STAGE_VERTEX_BIT OR VK_SHADER_STAGE_FRAGMENT_BIT \<and>
      offset range = 0 \<and>
      size' range = of_nat sizeof_SimplePushConstantData \<and> size' range = 32"
    using inst a by blast
  have d: "\<exists>info range.
      vkCreatePipelineLayout info \<in> set (fst (session sample_ctor [sample_frame])) \<and>
      Some declared_layout = Some info \<and> pushConstantRanges info = [range] \<and>
      17 = stageFlags range \<and> 0 = offset range \<and> 32 = size' range"
    using inst b by blast
  show ?thesis
    using a b c d by blast
qed


end
